theory Spec2Isabelle
  imports Complex_Main "HOL-Library.Multiset"
begin

section \<open>Short-horizon load forecasting: the predictor module\<close>

text \<open>
  The development embeds \<^verbatim>\<open>ML_models/Load_prediction/predictor.py\<close>: the confidence
  classifier \<^verbatim>\<open>get_confidence_level\<close>, the single-step predictor
  \<^verbatim>\<open>predict_next_hour_enhanced\<close> and the six-step loop \<^verbatim>\<open>predict_next_6_hours\<close>.

  Conventions of the embedding.
  \<^item> A Python float is the real number it stands for. The classifier decides its label by
    comparing doubles, so its operations are the real operations followed by rounding to
    the nearest double (\<open>double\<close> below); the other operations are exact, and exact on the
    doubles of the concrete values they are evaluated at (6.5, 4.5, 8.5, small integers).
    Infinities, NaN and results beyond the largest double are not modelled.
  \<^item> A pandas timestamp is its number of nanoseconds since 1970-01-01 00:00 (a Thursday),
    an unbounded integer; timestamps carry no time zone.
  \<^item> A data frame with the columns \<^verbatim>\<open>timestamp\<close> and \<^verbatim>\<open>count\<close> is the list of its rows.
  \<^item> The trained regressor is a total function from the ordered feature values to a real.
  \<^item> Every exception the module can raise is a value of type \<open>error\<close>; a function that
    can raise returns \<open>error + 'a\<close>, with \<open>Inl\<close> for the exception.
\<close>

subsection \<open>Exceptions, positional indexing, rounding\<close>

datatype error =
    IndexError                      \<comment> \<open>\<^verbatim>\<open>.iloc[i]\<close> out of bounds\<close>
  | KeyError string                 \<comment> \<open>a dictionary subscript with a missing key\<close>
  | KeyError_columns "string list"  \<comment> \<open>the \<^verbatim>\<open>KeyError\<close> of a column selection: the columns not in the frame\<close>

definition iloc :: "'a list \<Rightarrow> int \<Rightarrow> error + 'a" where
  \<comment> \<open>\<^verbatim>\<open>series.iloc[i]\<close>: position \<open>i\<close> from the front, or \<open>- i\<close> from the back when \<open>i\<close> is negative.\<close>
  "iloc xs i =
     (if 0 \<le> i \<and> i < int (length xs) then Inr (xs ! nat i)
      else if i < 0 \<and> - int (length xs) \<le> i then Inr (xs ! nat (int (length xs) + i))
      else Inl IndexError)"

definition tail_rows :: "nat \<Rightarrow> 'a list \<Rightarrow> 'a list" where
  \<comment> \<open>\<^verbatim>\<open>frame.tail(k)\<close> and \<^verbatim>\<open>series.iloc[-k:]\<close>: the last \<open>k\<close> rows, all of them when there are fewer.\<close>
  "tail_rows k xs = drop (length xs - k) xs"

definition mean :: "int list \<Rightarrow> real" where
  \<comment> \<open>\<^verbatim>\<open>series.mean()\<close> of an integer column.\<close>
  "mean xs = real_of_int (sum_list xs) / real (length xs)"

definition py_round :: "real \<Rightarrow> int" where
  \<comment> \<open>Python's one-argument \<^verbatim>\<open>round\<close>: the nearest integer, a tie going to the even one.\<close>
  "py_round x =
     (let f = \<lfloor>x\<rfloor>; d = x - of_int f
      in if d < 1 / 2 then f
         else if 1 / 2 < d then f + 1
         else if even f then f else f + 1)"

definition py_round2 :: "real \<Rightarrow> real" where
  \<comment> \<open>\<^verbatim>\<open>round(x, 2)\<close>, in exact arithmetic.\<close>
  "py_round2 x = real_of_int (py_round (x * 100)) / 100"

definition int_of_bool :: "bool \<Rightarrow> int" where
  \<comment> \<open>\<^verbatim>\<open>int(b)\<close> of a Boolean.\<close>
  "int_of_bool b = (if b then 1 else 0)"

subsection \<open>Timestamps\<close>

type_synonym timestamp = int

definition one_hour :: int where
  \<comment> \<open>\<^verbatim>\<open>pd.Timedelta(hours=1)\<close> in nanoseconds.\<close>
  "one_hour = 3600000000000"

definition ts_hour :: "timestamp \<Rightarrow> int" where
  \<comment> \<open>\<^verbatim>\<open>timestamp.hour\<close>\<close>
  "ts_hour t = (t div one_hour) mod 24"

definition ts_dayofweek :: "timestamp \<Rightarrow> int" where
  \<comment> \<open>\<^verbatim>\<open>timestamp.dayofweek\<close>: Monday is 0; day 0 of the epoch is a Thursday.\<close>
  "ts_dayofweek t = (t div (24 * one_hour) + 3) mod 7"

subsection \<open>The data frame and the model dictionary\<close>

type_synonym window = "(timestamp \<times> int) list"

record contexts =
  ctx_hour :: "int \<rightharpoonup> real"            \<comment> \<open>\<^verbatim>\<open>contexts['hour']\<close>\<close>
  ctx_load_level :: "string \<rightharpoonup> real"   \<comment> \<open>\<^verbatim>\<open>contexts['load_level']\<close>\<close>
  ctx_day_of_week :: "int \<rightharpoonup> real"     \<comment> \<open>\<^verbatim>\<open>contexts['day_of_week']\<close>\<close>

record model_data =
  model :: "real list \<Rightarrow> real"             \<comment> \<open>\<^verbatim>\<open>model.predict(X)[0]\<close> on the one row \<open>X\<close>\<close>
  feature_cols :: "string list"
  prediction_intervals :: "string \<rightharpoonup> real"
  contexts :: contexts
  test_mae :: real
  high_load_threshold :: real

subsection \<open>Double arithmetic\<close>

text \<open>
  A double is a real of the form \<open>m * 2 ^ e\<close> with \<open>\<bar>m\<bar> < 2 ^ 53\<close>. An operation on doubles
  gives the exact result rounded to the nearest double, the one with the even \<open>m\<close> at a tie.
  The doubles next to \<open>x\<close> are \<open>u\<close> apart, where \<open>u\<close> is \<open>2 ^ -52\<close> times the largest power of
  two that is at most \<open>\<bar>x\<bar>\<close>, and at least \<open>2 ^ -1074\<close>.
\<close>

function pow2_below :: "real \<Rightarrow> real" where
  \<comment> \<open>The largest power of two that is at most \<open>x\<close>, for a positive \<open>x\<close>.\<close>
  "pow2_below x =
     (if 2 \<le> x then 2 * pow2_below (x / 2)
      else if 0 < x \<and> x < 1 then pow2_below (2 * x) / 2
      else 1)"
  by pat_completeness auto
termination
proof (relation "measure (\<lambda>x. nat \<lceil>x\<rceil> + 2 * nat \<lceil>1 / x\<rceil>)")
  show "wf (measure (\<lambda>x. nat \<lceil>x\<rceil> + 2 * nat \<lceil>1 / x\<rceil>))" by simp
next
  fix x :: real assume x: "2 \<le> x"
  have a: "\<lceil>x / 2\<rceil> < \<lceil>x\<rceil>"
  proof -
    have "x / 2 \<le> x - 1" using x by simp
    then have "\<lceil>x / 2\<rceil> \<le> \<lceil>x - 1\<rceil>" by (rule ceiling_mono)
    then show ?thesis by simp
  qed
  have b: "\<lceil>1 / (x / 2)\<rceil> = 1" "\<lceil>1 / x\<rceil> = 1"
    using x by (simp_all add: ceiling_eq_iff)
  have "0 < \<lceil>x\<rceil>" using x by (simp add: less_ceiling_iff)
  with a have "nat \<lceil>x / 2\<rceil> < nat \<lceil>x\<rceil>" by linarith
  with b show "(x / 2, x) \<in> measure (\<lambda>x. nat \<lceil>x\<rceil> + 2 * nat \<lceil>1 / x\<rceil>)"
    unfolding in_measure by (simp only:)
next
  fix x :: real assume "\<not> 2 \<le> x" and x: "0 < x \<and> x < 1"
  have a: "\<lceil>2 * x\<rceil> \<le> 2" "\<lceil>x\<rceil> = 1"
    using x by (simp_all add: ceiling_le_iff ceiling_eq_iff)
  have b: "\<lceil>1 / (2 * x)\<rceil> < \<lceil>1 / x\<rceil>"
  proof -
    have one: "1 < 1 / x" using x by simp
    show ?thesis
    proof (cases "2 \<le> 1 / x")
      case True
      then have "1 / (2 * x) \<le> 1 / x - 1" using x by (simp add: field_simps)
      then have "\<lceil>1 / (2 * x)\<rceil> \<le> \<lceil>1 / x - 1\<rceil>" by (rule ceiling_mono)
      then show ?thesis by simp
    next
      case False
      then have "1 / (2 * x) \<le> 1" using x by (simp add: field_simps)
      then have le: "\<lceil>1 / (2 * x)\<rceil> \<le> 1" by (simp add: ceiling_le_iff)
      have "real_of_int 1 < 1 / x" using one by simp
      then have "1 < \<lceil>1 / x\<rceil>" by (simp only: less_ceiling_iff)
      with le show ?thesis by linarith
    qed
  qed
  have c: "0 < \<lceil>1 / (2 * x)\<rceil>" using x by (simp add: less_ceiling_iff)
  have "nat \<lceil>2 * x\<rceil> \<le> 2" using a(1) by linarith
  moreover have "nat \<lceil>x\<rceil> = 1" using a(2) by simp
  moreover have "nat \<lceil>1 / (2 * x)\<rceil> + 1 \<le> nat \<lceil>1 / x\<rceil>" using b c by linarith
  ultimately show "(2 * x, x) \<in> measure (\<lambda>x. nat \<lceil>x\<rceil> + 2 * nat \<lceil>1 / x\<rceil>)"
    unfolding in_measure by linarith
qed

declare pow2_below.simps [simp del]

definition min_normal :: real where
  \<comment> \<open>The smallest positive normal double.\<close>
  "min_normal = 1 / 2 ^ 1022"

definition double :: "real \<Rightarrow> real" where
  \<comment> \<open>The double nearest to \<open>x\<close>: \<open>x\<close> in units of \<open>u\<close>, rounded half to even.\<close>
  "double x =
     (if x = 0 then 0
      else let u = max (pow2_below \<bar>x\<bar>) min_normal / 2 ^ 52
           in sgn x * real_of_int (py_round (\<bar>x\<bar> / u)) * u)"

definition fadd :: "real \<Rightarrow> real \<Rightarrow> real" where
  \<comment> \<open>\<^verbatim>\<open>x + y\<close> on floats\<close>
  "fadd x y = double (x + y)"

definition fmul :: "real \<Rightarrow> real \<Rightarrow> real" where
  \<comment> \<open>\<^verbatim>\<open>x * y\<close> on floats\<close>
  "fmul x y = double (x * y)"

definition fdiv :: "real \<Rightarrow> real \<Rightarrow> real" where
  \<comment> \<open>\<^verbatim>\<open>x / y\<close> on floats, for a divisor other than 0\<close>
  "fdiv x y = double (x / y)"

subsection \<open>The confidence classifier\<close>

text \<open>
  The tables and the base error hold doubles. The literals \<^verbatim>\<open>0.85\<close> and \<^verbatim>\<open>1.15\<close> are the
  doubles nearest to them, and the integer \<^verbatim>\<open>3\<close> divides as the double 3.
\<close>

definition load_cat :: "int \<Rightarrow> string" where
  "load_cat load_level =
     (if load_level \<le> 3 then ''low''
      else if load_level \<le> 6 then ''medium''
      else if load_level \<le> 10 then ''high''
      else ''extreme'')"

definition dict_get :: "('k \<rightharpoonup> 'v) \<Rightarrow> 'k \<Rightarrow> 'v \<Rightarrow> 'v" where
  \<comment> \<open>\<^verbatim>\<open>d.get(k, default)\<close>\<close>
  "dict_get d k dflt = (case d k of None \<Rightarrow> dflt | Some v \<Rightarrow> v)"

definition context_mae :: "int \<Rightarrow> int \<Rightarrow> int \<Rightarrow> contexts \<Rightarrow> real \<Rightarrow> real" where
  \<comment> \<open>Lines 17 to 33: \<^verbatim>\<open>(hour_mae + load_mae + dow_mae) / 3\<close>, added from the left.\<close>
  "context_mae hour load_level day_of_week ctxs base_mae =
     (let hour_mae = dict_get (ctx_hour ctxs) hour base_mae;
          load_mae = dict_get (ctx_load_level ctxs) (load_cat load_level) base_mae;
          dow_mae = dict_get (ctx_day_of_week ctxs) day_of_week base_mae
      in fdiv (fadd (fadd hour_mae load_mae) dow_mae) 3)"

definition get_confidence_level ::
  "int \<Rightarrow> int \<Rightarrow> int \<Rightarrow> contexts \<Rightarrow> real \<Rightarrow> string \<times> real" where
  "get_confidence_level hour load_level day_of_week ctxs base_mae =
     (let cm = context_mae hour load_level day_of_week ctxs base_mae
      in if cm < fmul base_mae (double 0.85) then (''high'', cm)
         else if cm < fmul base_mae (double 1.15) then (''medium'', cm)
         else (''low'', cm))"

subsection \<open>The feature dictionary\<close>

text \<open>
  The dictionary \<^verbatim>\<open>features\<close> always holds the seven keys of its literal; each of the five
  optional keys is present exactly when the \<^verbatim>\<open>if\<close> guarding its assignment is taken.
\<close>

record features =
  lag_1 :: int
  lag_2 :: int
  lag_3 :: int
  hour :: int
  day_of_week :: int
  is_weekend :: int
  high_load_recent :: int
  is_evening_rush :: "int option"
  is_night :: "int option"
  avg_last_3h :: "real option"
  trend_last_3h :: "int option"
  same_hour_yesterday :: "real option"

definition same_hour_yesterday_value :: "window \<Rightarrow> error + real" where
  \<comment> \<open>Lines 91 to 95 of the module.\<close>
  "same_hour_yesterday_value recent_data =
     (if length recent_data \<ge> 24
      then (case iloc (map snd recent_data) (- 24) of
              Inl e \<Rightarrow> Inl e
            | Inr c \<Rightarrow> Inr (real_of_int c))
      else Inr (mean (map snd recent_data)))"

definition build_features :: "window \<Rightarrow> model_data \<Rightarrow> error + features" where
  \<comment> \<open>Lines 62 to 95 of \<^verbatim>\<open>predict_next_hour_enhanced\<close>.\<close>
  "build_features recent_data md =
     (case iloc (map fst recent_data) (- 1) of Inl e \<Rightarrow> Inl e | Inr last_timestamp \<Rightarrow>
      let next_timestamp = last_timestamp + one_hour in
      case iloc (map snd recent_data) (- 1) of Inl e \<Rightarrow> Inl e | Inr l1 \<Rightarrow>
      case iloc (map snd recent_data) (- 2) of Inl e \<Rightarrow> Inl e | Inr l2 \<Rightarrow>
      case iloc (map snd recent_data) (- 3) of Inl e \<Rightarrow> Inl e | Inr l3 \<Rightarrow>
      let cols = feature_cols md in
      case (if ''same_hour_yesterday'' \<in> set cols
            then map_sum id Some (same_hour_yesterday_value recent_data)
            else Inr None) of Inl e \<Rightarrow> Inl e | Inr shy \<Rightarrow>
      Inr \<lparr> lag_1 = l1, lag_2 = l2, lag_3 = l3,
            hour = ts_hour next_timestamp,
            day_of_week = ts_dayofweek next_timestamp,
            is_weekend = int_of_bool (ts_dayofweek next_timestamp \<ge> 5),
            high_load_recent = int_of_bool (real_of_int l1 \<ge> high_load_threshold md),
            is_evening_rush =
              (if ''is_evening_rush'' \<in> set cols
               then Some (int_of_bool (17 \<le> ts_hour next_timestamp \<and> ts_hour next_timestamp \<le> 20))
               else None),
            is_night =
              (if ''is_night'' \<in> set cols
               then Some (int_of_bool (0 \<le> ts_hour next_timestamp \<and> ts_hour next_timestamp \<le> 6))
               else None),
            avg_last_3h =
              (if ''avg_last_3h'' \<in> set cols
               then Some (mean (tail_rows 3 (map snd recent_data)))
               else None),
            trend_last_3h =
              (if ''trend_last_3h'' \<in> set cols then Some (l1 - l3) else None),
            same_hour_yesterday = shy \<rparr>)"

definition feature_value :: "features \<Rightarrow> string \<Rightarrow> real option" where
  \<comment> \<open>The dictionary read at a key, as the number the one-row frame holds in that column.\<close>
  "feature_value f k =
     (if k = ''lag_1'' then Some (real_of_int (lag_1 f))
      else if k = ''lag_2'' then Some (real_of_int (lag_2 f))
      else if k = ''lag_3'' then Some (real_of_int (lag_3 f))
      else if k = ''hour'' then Some (real_of_int (hour f))
      else if k = ''day_of_week'' then Some (real_of_int (day_of_week f))
      else if k = ''is_weekend'' then Some (real_of_int (is_weekend f))
      else if k = ''high_load_recent'' then Some (real_of_int (high_load_recent f))
      else if k = ''is_evening_rush'' then map_option real_of_int (is_evening_rush f)
      else if k = ''is_night'' then map_option real_of_int (is_night f)
      else if k = ''avg_last_3h'' then avg_last_3h f
      else if k = ''trend_last_3h'' then map_option real_of_int (trend_last_3h f)
      else if k = ''same_hour_yesterday'' then same_hour_yesterday f
      else None)"

definition X_pred :: "features \<Rightarrow> string list \<Rightarrow> error + real list" where
  \<comment> \<open>\<^verbatim>\<open>pd.DataFrame([features])[feature_cols]\<close>: the selection raises when a name is no column.\<close>
  "X_pred f cols =
     (if list_all (\<lambda>c. feature_value f c \<noteq> None) cols
      then Inr (map (\<lambda>c. the (feature_value f c)) cols)
      else Inl (KeyError_columns (filter (\<lambda>c. feature_value f c = None) cols)))"

subsection \<open>The single-step predictor\<close>

record reasoning =
  r_hour :: int
  r_is_night :: int
  r_is_evening_rush :: int
  r_recent_trend :: string
  r_high_load_recent :: bool

record forecast =
  timestamp :: timestamp
  predicted_arrivals :: int
  lower_bound :: int
  upper_bound :: int
  confidence_level :: string
  confidence_interval :: string
  expected_error :: real
  reasoning :: reasoning

definition predict_next_hour_enhanced ::
  "window \<Rightarrow> model_data \<Rightarrow> string \<Rightarrow> error + forecast" where
  "predict_next_hour_enhanced recent_data md conf =
     (case build_features recent_data md of Inl e \<Rightarrow> Inl e | Inr f \<Rightarrow>
      case X_pred f (feature_cols md) of Inl e \<Rightarrow> Inl e | Inr x \<Rightarrow>
      let raw_prediction = max 0 (model md x);
          prediction = py_round raw_prediction in
      case prediction_intervals md conf of None \<Rightarrow> Inl (KeyError conf) | Some interval_width \<Rightarrow>
      let lb = max 0 (py_round (raw_prediction - interval_width));
          ub = py_round (raw_prediction + interval_width);
          (confidence, cm) =
             get_confidence_level (hour f) prediction (day_of_week f) (contexts md) (test_mae md)
      in Inr \<lparr> timestamp = fst (last recent_data) + one_hour,
               predicted_arrivals = prediction,
               lower_bound = lb,
               upper_bound = ub,
               confidence_level = confidence,
               confidence_interval = conf,
               expected_error = py_round2 cm,
               reasoning = \<lparr> r_hour = hour f,
                             r_is_night = (case is_night f of None \<Rightarrow> 0 | Some v \<Rightarrow> v),
                             r_is_evening_rush = (case is_evening_rush f of None \<Rightarrow> 0 | Some v \<Rightarrow> v),
                             r_recent_trend =
                               (if (case trend_last_3h f of None \<Rightarrow> 0 | Some v \<Rightarrow> v) > 0
                                then ''increasing'' else ''decreasing''),
                             r_high_load_recent = (high_load_recent f \<noteq> 0) \<rparr> \<rparr>)"

subsection \<open>The six-step loop\<close>

text \<open>
  The loop works on a copy of its argument, sorted by timestamp. The conversion of line 162
  leaves parsed timestamps as they are, and the rows here hold parsed timestamps, so it is
  not modelled in this embedding; the embedding on a store of frames, further down, has it.
  The loop variable \<^verbatim>\<open>hour\<close> is used for the printed progress lines only.
\<close>

definition sort_values :: "window \<Rightarrow> window" where
  \<comment> \<open>\<^verbatim>\<open>frame.sort_values('timestamp').reset_index(drop=True)\<close>. Rows with equal timestamps keep
      their order here; pandas fixes their order only up to the sorting routine in use.\<close>
  "sort_values w = sort_key fst w"

definition extend_window :: "window \<Rightarrow> forecast \<Rightarrow> window" where
  \<comment> \<open>Lines 183 to 191: append the prediction as a row, keep the last 50 rows.\<close>
  "extend_window working_data pred =
     (let w = working_data @ [(timestamp pred, predicted_arrivals pred)]
      in if length w > 50 then tail_rows 50 w else w)"

fun forecast_loop ::
  "nat list \<Rightarrow> window \<Rightarrow> model_data \<Rightarrow> string \<Rightarrow> forecast list \<Rightarrow> error + forecast list" where
  "forecast_loop [] working_data md conf predictions = Inr predictions"
| "forecast_loop (h # hs) working_data md conf predictions =
     (case predict_next_hour_enhanced working_data md conf of
        Inl e \<Rightarrow> Inl e
      | Inr pred \<Rightarrow>
          forecast_loop hs (extend_window working_data pred) md conf (predictions @ [pred]))"

definition predict_next_6_hours ::
  "window \<Rightarrow> model_data \<Rightarrow> string \<Rightarrow> error + forecast list" where
  "predict_next_6_hours recent_data md conf =
     (let working_data = sort_values recent_data in
      case iloc (map fst working_data) (- 1) of
        Inl e \<Rightarrow> Inl e   \<comment> \<open>line 168 reads the last timestamp for its message\<close>
      | Inr _ \<Rightarrow> forecast_loop [1..<7] working_data md conf [])"


subsection \<open>The forecast endpoint\<close>

text \<open>
  \<^verbatim>\<open>forecast_icu_load\<close> of \<^verbatim>\<open>backend/src/load_prediction_api.py\<close>, from the parsed request on.
  The request body is its two entries, each possibly missing; the rows arrive with parsed
  timestamps. A frame built from an empty list of rows has no columns, so line 82 raises
  \<^verbatim>\<open>KeyError('timestamp')\<close>, which the handler of line 123 turns into a 500 response like any
  other exception.
\<close>

record request =
  req_recent_data :: "window option"
  req_confidence_level :: "string option"

datatype bad_request = Missing_recent_data | Need_3_hours

datatype response =
    Response_200 "forecast list"     \<comment> \<open>the forecast, before formatting\<close>
  | Response_400 bad_request
  | Response_500_not_loaded          \<comment> \<open>the model dictionary is \<^verbatim>\<open>None\<close>\<close>
  | Response_500 error               \<comment> \<open>an exception caught at line 123\<close>

definition forecast_icu_load :: "model_data option \<Rightarrow> request \<Rightarrow> response" where
  "forecast_icu_load loaded data =
     (case loaded of None \<Rightarrow> Response_500_not_loaded | Some md \<Rightarrow>
      case req_recent_data data of None \<Rightarrow> Response_400 Missing_recent_data | Some rows \<Rightarrow>
      if rows = [] then Response_500 (KeyError ''timestamp'')
      else if length rows < 3 then Response_400 Need_3_hours
      else
        (case predict_next_6_hours rows md
                (case req_confidence_level data of None \<Rightarrow> ''90%'' | Some c \<Rightarrow> c) of
           Inl e \<Rightarrow> Response_500 e
         | Inr predictions \<Rightarrow> Response_200 predictions))"

subsection \<open>The six-step loop on a store of frames\<close>

text \<open>
  To state which frame objects a call writes, the loop is embedded a second time with the
  frames held in a store: a frame object is an address, the store lists the rows of every
  object, and a pandas operation that returns a new frame allocates the next address.
  \<^verbatim>\<open>pd.to_datetime\<close> is a parameter here, so that the column assignment of line 162 is a
  write whatever the conversion does to the timestamps.
\<close>

type_synonym addr = nat
type_synonym store = "window list"

definition new_frame :: "store \<Rightarrow> window \<Rightarrow> addr \<times> store" where
  "new_frame s rows = (length s, s @ [rows])"

definition predict_next_hour_enhanced_on ::
  "store \<Rightarrow> addr \<Rightarrow> model_data \<Rightarrow> string \<Rightarrow> (error + forecast) \<times> store" where
  \<comment> \<open>The single step only reads its frame: by subscript, \<^verbatim>\<open>.iloc\<close>, \<^verbatim>\<open>len\<close> and \<^verbatim>\<open>.mean()\<close>.\<close>
  "predict_next_hour_enhanced_on s recent_data md conf =
     (predict_next_hour_enhanced (s ! recent_data) md conf, s)"

fun forecast_loop_on ::
  "nat list \<Rightarrow> store \<Rightarrow> addr \<Rightarrow> model_data \<Rightarrow> string \<Rightarrow> forecast list
     \<Rightarrow> (error + forecast list) \<times> store" where
  "forecast_loop_on [] s working_data md conf predictions = (Inr predictions, s)"
| "forecast_loop_on (h # hs) s working_data md conf predictions =
     (case predict_next_hour_enhanced_on s working_data md conf of
        (Inl e, s1) \<Rightarrow> (Inl e, s1)
      | (Inr pred, s1) \<Rightarrow>
          let (new_row, s2) = new_frame s1 [(timestamp pred, predicted_arrivals pred)];
              (concatenated, s3) = new_frame s2 (s2 ! working_data @ s2 ! new_row);
              (kept, s4) =
                 (if length (s3 ! concatenated) > 50
                  then new_frame s3 (tail_rows 50 (s3 ! concatenated))
                  else (concatenated, s3))
          in forecast_loop_on hs s4 kept md conf (predictions @ [pred]))"

definition predict_next_6_hours_on ::
  "(timestamp \<Rightarrow> timestamp) \<Rightarrow> store \<Rightarrow> addr \<Rightarrow> model_data \<Rightarrow> string
     \<Rightarrow> (error + forecast list) \<times> store" where
  "predict_next_6_hours_on to_datetime s recent_data md conf =
     (let (copy, s1) = new_frame s (s ! recent_data);
          s2 = s1[copy := map (\<lambda>(t, c). (to_datetime t, c)) (s1 ! copy)];
          (working_data, s3) = new_frame s2 (sort_values (s2 ! copy))
      in case iloc (map fst (s3 ! working_data)) (- 1) of
           Inl e \<Rightarrow> (Inl e, s3)
         | Inr _ \<Rightarrow> forecast_loop_on [1..<7] s3 working_data md conf [])"


subsection \<open>The column names, and frames and dictionaries to evaluate on\<close>

definition feature_names :: "string list" where
  \<comment> \<open>The keys the dictionary \<^verbatim>\<open>features\<close> can hold.\<close>
  "feature_names = [''lag_1'', ''lag_2'', ''lag_3'', ''hour'', ''day_of_week'', ''is_weekend'',
     ''high_load_recent'', ''is_evening_rush'', ''is_night'', ''avg_last_3h'', ''trend_last_3h'',
     ''same_hour_yesterday'']"

definition hourly :: "timestamp \<Rightarrow> int list \<Rightarrow> window" where
  \<comment> \<open>The frame of consecutive hourly rows that starts at \<open>t\<close> and has the counts \<open>cs\<close>.\<close>
  "hourly t cs = map (\<lambda>i. (t + int i * one_hour, cs ! i)) [0..<length cs]"

definition artifact ::
  "(real list \<Rightarrow> real) \<Rightarrow> string list \<Rightarrow> (string \<rightharpoonup> real) \<Rightarrow> model_data" where
  \<comment> \<open>A model dictionary with empty context tables, a test MAE of 1 and a high-load threshold of 10.\<close>
  "artifact p cols widths =
     \<lparr> model = p, feature_cols = cols, prediction_intervals = widths,
       contexts = \<lparr> ctx_hour = Map.empty, ctx_load_level = Map.empty, ctx_day_of_week = Map.empty \<rparr>,
       test_mae = 1, high_load_threshold = 10 \<rparr>"

definition monday_10h :: timestamp where
  \<comment> \<open>2024-01-01 10:00, a Monday.\<close>
  "monday_10h = 1704103200000000000"

definition constant_predictor :: "real \<Rightarrow> real list \<Rightarrow> real" where
  \<comment> \<open>A regressor that answers \<open>c\<close> whatever the row.\<close>
  "constant_predictor c x = c"

definition first_column :: "real list \<Rightarrow> real" where
  \<comment> \<open>A regressor that answers the first feature of the row.\<close>
  "first_column x = (case x of [] \<Rightarrow> 0 | v # _ \<Rightarrow> v)"

definition widths_90 :: "string \<rightharpoonup> real" where
  "widths_90 = [''90%'' \<mapsto> 2]"

definition widths_90_95_99 :: "string \<rightharpoonup> real" where
  "widths_90_95_99 = [''90%'' \<mapsto> 2, ''95%'' \<mapsto> 3, ''99%'' \<mapsto> 4]"

definition no_contexts :: contexts where
  "no_contexts = \<lparr> ctx_hour = Map.empty, ctx_load_level = Map.empty, ctx_day_of_week = Map.empty \<rparr>"

definition example_contexts :: "real \<Rightarrow> real \<Rightarrow> real \<Rightarrow> contexts" where
  \<comment> \<open>Context tables with one entry each: hour 10, the bucket medium and weekday 0.\<close>
  "example_contexts h l d =
     \<lparr> ctx_hour = [10 \<mapsto> h], ctx_load_level = [''medium'' \<mapsto> l], ctx_day_of_week = [0 \<mapsto> d] \<rparr>"

definition bounds_of :: "forecast \<Rightarrow> int \<times> int \<times> int" where
  \<comment> \<open>The predicted count and the two bounds of a forecast point.\<close>
  "bounds_of p = (predicted_arrivals p, lower_bound p, upper_bound p)"

definition tied_window :: window where
  \<comment> \<open>Three rows with one and the same timestamp.\<close>
  "tied_window = [(monday_10h, 1), (monday_10h, 2), (monday_10h, 3)]"

definition day_window :: window where
  \<comment> \<open>Hourly rows with the counts 1 to 24, from Monday 10:00 to Tuesday 09:00.\<close>
  "day_window =
     hourly monday_10h [1, 2, 3, 4, 5, 6, 7, 8, 9, 10, 11, 12, 13, 14, 15, 16, 17, 18, 19, 20, 21, 22, 23, 24]"

definition gapped_window :: window where
  \<comment> \<open>The rows of \<open>day_window\<close>, none at Tuesday 10:00, and a row with the count 25 at 11:00.\<close>
  "gapped_window = day_window @ [(monday_10h + 25 * one_hour, 25)]"

definition offgrid_window :: window where
  \<comment> \<open>A row at Monday 09:30, then the rows of \<open>day_window\<close>.\<close>
  "offgrid_window = (monday_10h - 1800000000000, 0) # day_window"

section \<open>Basic facts\<close>

subsection \<open>Indexing and rounding\<close>

lemma iloc_neg: "0 < k \<Longrightarrow> k \<le> length xs \<Longrightarrow> iloc xs (- int k) = Inr (xs ! (length xs - k))"
  by (simp add: iloc_def nat_diff_distrib' of_nat_diff)

lemma iloc_neg_short: "length xs < k \<Longrightarrow> iloc xs (- int k) = Inl IndexError"
  by (simp add: iloc_def)

lemma iloc_m1: "iloc xs (- 1) = (if xs = [] then Inl IndexError else Inr (last xs))"
  using iloc_neg [of 1 xs] iloc_neg_short [of xs 1]
  by (cases "xs = []") (simp_all add: last_conv_nth Suc_le_eq)

lemma py_round_floor_le: "\<lfloor>x\<rfloor> \<le> py_round x"
  by (simp add: py_round_def Let_def)

lemma py_round_le_floor1: "py_round x \<le> \<lfloor>x\<rfloor> + 1"
  by (simp add: py_round_def Let_def)

lemma py_round_mono: "x \<le> y \<Longrightarrow> py_round x \<le> py_round y"
proof (cases "\<lfloor>x\<rfloor> = \<lfloor>y\<rfloor>")
  case True
  assume "x \<le> y"
  then show ?thesis using True by (auto simp: py_round_def Let_def)
next
  case False
  assume xy: "x \<le> y"
  then have "\<lfloor>x\<rfloor> \<le> \<lfloor>y\<rfloor>" by (rule floor_mono)
  with False have "\<lfloor>x\<rfloor> + 1 \<le> \<lfloor>y\<rfloor>" by simp
  then show ?thesis using py_round_le_floor1 [of x] py_round_floor_le [of y] by linarith
qed

lemma py_round_nonneg: "0 \<le> x \<Longrightarrow> 0 \<le> py_round x"
  using py_round_floor_le [of x] by (simp add: order_trans [of 0 "\<lfloor>x\<rfloor>"])

lemma py_round_nearest: "\<bar>real_of_int (py_round x) - x\<bar> \<le> 1 / 2"
  by (simp add: py_round_def Let_def)

lemma py_round_tie: "\<bar>real_of_int (py_round x) - x\<bar> = 1 / 2 \<Longrightarrow> even (py_round x)"
  by (auto simp add: py_round_def Let_def split: if_splits) 

lemma iloc_m2: "2 \<le> length xs \<Longrightarrow> iloc xs (- 2) = Inr (xs ! (length xs - 2))"
  using iloc_neg [of 2 xs] by simp

lemma iloc_m3: "3 \<le> length xs \<Longrightarrow> iloc xs (- 3) = Inr (xs ! (length xs - 3))"
  using iloc_neg [of 3 xs] by simp

lemma iloc_m24: "24 \<le> length xs \<Longrightarrow> iloc xs (- 24) = Inr (xs ! (length xs - 24))"
  using iloc_neg [of 24 xs] by simp

lemma same_hour_yesterday_value_Inr:
  "same_hour_yesterday_value w =
     Inr (if 24 \<le> length w then real_of_int (map snd w ! (length w - 24)) else mean (map snd w))"
  by (simp add: same_hour_yesterday_value_def iloc_m24)

lemma build_features_short: "length w < 3 \<Longrightarrow> build_features w md = Inl IndexError"
proof -
  assume a: "length w < 3"
  consider "w = []" | "length w = 1" | "length w = 2"
    using a by (cases w) (auto simp: less_Suc_eq numeral_3_eq_3)
  then show ?thesis
  proof cases
    case 1 then show ?thesis by (simp add: build_features_def iloc_m1)
  next
    case 2
    then have "w \<noteq> []" by auto
    moreover have "iloc (map snd w) (- 2) = Inl IndexError"
      using iloc_neg_short [of "map snd w" 2] 2 by simp
    ultimately show ?thesis by (simp add: build_features_def iloc_m1 Let_def)
  next
    case 3
    then have "w \<noteq> []" by auto
    moreover have "iloc (map snd w) (- 3) = Inl IndexError"
      using iloc_neg_short [of "map snd w" 3] 3 by simp
    moreover have "iloc (map snd w) (- 2) = Inr (map snd w ! 0)"
      using iloc_m2 [of "map snd w"] 3 by simp
    ultimately show ?thesis by (simp add: build_features_def iloc_m1 Let_def)
  qed
qed

lemma build_features_ok:
  assumes "3 \<le> length w"
  shows "\<exists>f. build_features w md = Inr f"
proof -
  from assms have ne: "w \<noteq> []" by auto
  show ?thesis
    using assms ne
    by (simp add: build_features_def iloc_m1 iloc_m2 iloc_m3 Let_def
        same_hour_yesterday_value_Inr)
qed

lemma build_features_optional:
  assumes "build_features w md = Inr f"
  shows "(is_evening_rush f \<noteq> None) = (''is_evening_rush'' \<in> set (feature_cols md))"
    and "(is_night f \<noteq> None) = (''is_night'' \<in> set (feature_cols md))"
    and "(avg_last_3h f \<noteq> None) = (''avg_last_3h'' \<in> set (feature_cols md))"
    and "(trend_last_3h f \<noteq> None) = (''trend_last_3h'' \<in> set (feature_cols md))"
    and "(same_hour_yesterday f \<noteq> None) = (''same_hour_yesterday'' \<in> set (feature_cols md))"
  using assms
  by (auto simp add: build_features_def Let_def same_hour_yesterday_value_Inr
      split: sum.splits if_splits)

lemma hourly_5: "hourly t [a, b, c, d, e] = [(t, a), (t + one_hour, b), (t + 2 * one_hour, c), (t + 3 * one_hour, d), (t + 4 * one_hour, e)]"
  by (simp add: hourly_def upt_rec)

subsection \<open>Double arithmetic\<close>

lemma pow2_below_ge2: "2 \<le> x \<Longrightarrow> pow2_below x = 2 * pow2_below (x / 2)"
  by (subst pow2_below.simps) simp

lemma pow2_below_lt1: "0 < x \<Longrightarrow> x < 1 \<Longrightarrow> pow2_below x = pow2_below (2 * x) / 2"
  by (subst pow2_below.simps) simp

lemma pow2_below_mid: "1 \<le> x \<Longrightarrow> x < 2 \<Longrightarrow> pow2_below x = 1"
  by (subst pow2_below.simps) simp

lemmas pow2_below_eval = pow2_below_ge2 pow2_below_lt1 pow2_below_mid

lemma pow2_below_bounds:
  "0 < x \<Longrightarrow> 0 < pow2_below x \<and> pow2_below x \<le> x \<and> x < 2 * pow2_below x"
proof (induction x rule: pow2_below.induct)
  case (1 x)
  show ?case
  proof (cases "2 \<le> x")
    case True
    with "1.IH"(1) "1.prems" have "0 < pow2_below (x / 2) \<and> pow2_below (x / 2) \<le> x / 2
        \<and> x / 2 < 2 * pow2_below (x / 2)" by simp
    then show ?thesis using pow2_below_ge2 [OF True] by simp
  next
    case False
    show ?thesis
    proof (cases "x < 1")
      case True
      with "1.IH"(2) False "1.prems" have "0 < pow2_below (2 * x) \<and> pow2_below (2 * x) \<le> 2 * x
        \<and> 2 * x < 2 * pow2_below (2 * x)" by simp
      then show ?thesis using pow2_below_lt1 [OF "1.prems" True] by simp
    next
      case nlt: False
      then have "pow2_below x = 1" using False by (intro pow2_below_mid) simp_all
      with False nlt show ?thesis by simp
    qed
  qed
qed

lemma min_normal_pos: "0 < min_normal"
  unfolding min_normal_def by (rule divide_pos_pos) simp_all

lemma min_normal_le: "min_normal \<le> 1 / 4"
proof -
  have "(4::real) \<le> 2 ^ 1022" using power_increasing [of 2 1022 "2::real"] by simp
  then show ?thesis unfolding min_normal_def by (simp add: field_simps)
qed

lemma double_0: "double 0 = 0"
  by (simp add: double_def)

lemma double_pos:
  assumes "0 < x" and "1 / 4 \<le> pow2_below x"
  shows "double x = real_of_int (py_round (x * 2 ^ 52 / pow2_below x)) * pow2_below x / 2 ^ 52"
proof -
  have "max (pow2_below x) min_normal = pow2_below x"
    using assms(2) min_normal_le by (simp add: max_def)
  then show ?thesis using assms(1) by (simp add: double_def Let_def)
qed

lemma double_error:
  assumes "min_normal \<le> \<bar>x\<bar>"
  shows "\<bar>double x - x\<bar> \<le> \<bar>x\<bar> / 2 ^ 53"
proof -
  have pos: "0 < \<bar>x\<bar>" using assms min_normal_pos by linarith
  then have x0: "x \<noteq> 0" by simp
  define u where "u = max (pow2_below \<bar>x\<bar>) min_normal / 2 ^ 52"
  have mpos: "0 < max (pow2_below \<bar>x\<bar>) min_normal" using min_normal_pos by (simp add: max_def)
  have up: "0 < u" unfolding u_def using mpos by simp
  have "max (pow2_below \<bar>x\<bar>) min_normal \<le> \<bar>x\<bar>"
    using pow2_below_bounds [OF pos] assms by (simp add: max_def)
  then have ule: "u \<le> \<bar>x\<bar> / 2 ^ 52" unfolding u_def by (simp add: divide_right_mono)
  define r where "r = real_of_int (py_round (\<bar>x\<bar> / u))"
  have d: "double x = sgn x * r * u"
    using x0 by (simp add: double_def u_def r_def Let_def)
  have "\<bar>double x - x\<bar> = \<bar>r * u - \<bar>x\<bar>\<bar>"
  proof (cases "0 < x")
    case True
    then show ?thesis by (simp add: d)
  next
    case False
    with x0 have neg: "x < 0" by simp
    then have "double x - x = - (r * u - \<bar>x\<bar>)" by (simp add: d)
    then show ?thesis by (simp only: abs_minus_cancel)
  qed
  also have "\<dots> = u * \<bar>r - \<bar>x\<bar> / u\<bar>"
  proof -
    have "r * u - \<bar>x\<bar> = u * (r - \<bar>x\<bar> / u)"
      using up by (simp add: field_simps)
    then show ?thesis using up by (simp add: abs_mult)
  qed
  also have "\<dots> \<le> u * (1 / 2)"
  proof (rule mult_left_mono)
    show "\<bar>r - \<bar>x\<bar> / u\<bar> \<le> 1 / 2" unfolding r_def by (rule py_round_nearest)
    show "0 \<le> u" using up by simp
  qed
  also have "\<dots> \<le> \<bar>x\<bar> / 2 ^ 53" using ule by simp
  finally show ?thesis .
qed

lemma double_085: "double 0.85 = 7656119366529843 / 9007199254740992"
  by (simp add: double_pos pow2_below_eval py_round_def Let_def)

lemma double_115: "double 1.15 = 5179139571476070 / 4503599627370496"
  by (simp add: double_pos pow2_below_eval py_round_def Let_def)

lemma thresholds_apart:
  assumes "2 * min_normal \<le> b"
  shows "fmul b (double 0.85) < fmul b (double 1.15)"
proof -
  have b0: "0 < b" using assms min_normal_pos by linarith
  define lo where "lo = b * (7656119366529843 / 9007199254740992)"
  define hi where "hi = b * (5179139571476070 / 4503599627370496)"
  have lo_lb: "b / 2 \<le> lo" and lo_ub: "lo + lo / 2 ^ 53 \<le> b * (9 / 10)"
    using b0 unfolding lo_def by simp_all
  have hi_lb: "b * (11 / 10) \<le> hi - hi / 2 ^ 53" and lo_hi: "lo \<le> hi"
    using b0 unfolding lo_def hi_def by simp_all
  have lo_pos: "0 < lo" using lo_lb b0 by linarith
  have hi_pos: "0 < hi" using lo_hi lo_pos by linarith
  have n1: "min_normal \<le> \<bar>lo\<bar>" using assms lo_lb by linarith
  have n2: "min_normal \<le> \<bar>hi\<bar>" using n1 lo_hi lo_pos by linarith
  have e1: "\<bar>double lo - lo\<bar> \<le> \<bar>lo\<bar> / 2 ^ 53" by (rule double_error [OF n1])
  have e2: "\<bar>double hi - hi\<bar> \<le> \<bar>hi\<bar> / 2 ^ 53" by (rule double_error [OF n2])
  have a1: "\<bar>lo\<bar> = lo" and a2: "\<bar>hi\<bar> = hi" using lo_pos hi_pos by simp_all
  have up: "double lo \<le> b * (9 / 10)" using e1 lo_ub unfolding a1 by linarith
  have low: "b * (11 / 10) \<le> double hi" using e2 hi_lb unfolding a2 by linarith
  have "b * (9 / 10) < b * (11 / 10)" using b0 by simp
  with up low have "double lo < double hi" by linarith
  then show ?thesis by (simp only: fmul_def double_085 double_115 lo_def hi_def)
qed

subsection \<open>The single step\<close>

lemma predict_next_hour_enhanced_short:
  "length w < 3 \<Longrightarrow> predict_next_hour_enhanced w md conf = Inl IndexError"
  by (simp add: predict_next_hour_enhanced_def build_features_short)

lemma feature_value_simps:
  "feature_value f ''lag_1'' = Some (real_of_int (lag_1 f))"
  "feature_value f ''lag_2'' = Some (real_of_int (lag_2 f))"
  "feature_value f ''lag_3'' = Some (real_of_int (lag_3 f))"
  "feature_value f ''hour'' = Some (real_of_int (hour f))"
  "feature_value f ''day_of_week'' = Some (real_of_int (day_of_week f))"
  "feature_value f ''is_weekend'' = Some (real_of_int (is_weekend f))"
  "feature_value f ''high_load_recent'' = Some (real_of_int (high_load_recent f))"
  "feature_value f ''is_evening_rush'' = map_option real_of_int (is_evening_rush f)"
  "feature_value f ''is_night'' = map_option real_of_int (is_night f)"
  "feature_value f ''avg_last_3h'' = avg_last_3h f"
  "feature_value f ''trend_last_3h'' = map_option real_of_int (trend_last_3h f)"
  "feature_value f ''same_hour_yesterday'' = same_hour_yesterday f"
  by (simp_all add: feature_value_def)

lemma feature_value_known:
  assumes "build_features w md = Inr f" and "c \<in> set (feature_cols md)"
    and "c \<in> set feature_names"
  shows "feature_value f c \<noteq> None"
proof -
  note opt = build_features_optional [OF assms(1)]
  from assms(3) have "c = ''lag_1'' \<or> c = ''lag_2'' \<or> c = ''lag_3'' \<or> c = ''hour''
    \<or> c = ''day_of_week'' \<or> c = ''is_weekend'' \<or> c = ''high_load_recent''
    \<or> c = ''is_evening_rush'' \<or> c = ''is_night'' \<or> c = ''avg_last_3h''
    \<or> c = ''trend_last_3h'' \<or> c = ''same_hour_yesterday''"
    by (simp only: feature_names_def list.set insert_iff empty_iff simp_thms)
  then show ?thesis
    using opt assms(2) by (elim disjE) (simp_all add: feature_value_simps)
qed

lemma feature_value_unknown: "c \<notin> set feature_names \<Longrightarrow> feature_value f c = None"
  by (simp add: feature_value_def feature_names_def)

lemma X_pred_ok:
  assumes "build_features w md = Inr f" and "set (feature_cols md) \<subseteq> set feature_names"
  shows "X_pred f (feature_cols md) = Inr (map (\<lambda>c. the (feature_value f c)) (feature_cols md))"
proof -
  have "list_all (\<lambda>c. feature_value f c \<noteq> None) (feature_cols md)"
    unfolding list_all_iff using feature_value_known [OF assms(1)] assms(2) by blast
  then show ?thesis by (simp add: X_pred_def)
qed

lemma X_pred_unknown:
  assumes "\<not> set cols \<subseteq> set feature_names"
  shows "\<exists>cs. X_pred f cols = Inl (KeyError_columns cs)"
proof -
  from assms obtain c where "c \<in> set cols" "c \<notin> set feature_names" by blast
  then have "\<not> list_all (\<lambda>c. feature_value f c \<noteq> None) cols"
    unfolding list_all_iff using feature_value_unknown by blast
  then show ?thesis by (simp add: X_pred_def)
qed

lemma predict_next_hour_enhanced_Inr:
  assumes "predict_next_hour_enhanced w md conf = Inr p"
  shows "\<exists>f x wd. build_features w md = Inr f \<and> X_pred f (feature_cols md) = Inr x
     \<and> prediction_intervals md conf = Some wd
     \<and> timestamp p = fst (last w) + one_hour
     \<and> predicted_arrivals p = py_round (max 0 (model md x))
     \<and> lower_bound p = max 0 (py_round (max 0 (model md x) - wd))
     \<and> upper_bound p = py_round (max 0 (model md x) + wd)
     \<and> confidence_interval p = conf
     \<and> confidence_level p =
         fst (get_confidence_level (hour f) (predicted_arrivals p) (day_of_week f) (contexts md) (test_mae md))"
  using assms
  by (auto simp add: predict_next_hour_enhanced_def Let_def split: sum.splits option.splits prod.splits)

lemma predict_next_hour_enhanced_eval:
  assumes "build_features w md = Inr f" and "X_pred f (feature_cols md) = Inr x"
     and "prediction_intervals md conf = Some wd"
  shows "\<exists>p. predict_next_hour_enhanced w md conf = Inr p
     \<and> timestamp p = fst (last w) + one_hour
     \<and> predicted_arrivals p = py_round (max 0 (model md x))
     \<and> lower_bound p = max 0 (py_round (max 0 (model md x) - wd))
     \<and> upper_bound p = py_round (max 0 (model md x) + wd)
     \<and> confidence_interval p = conf"
  using assms
  by (auto simp add: predict_next_hour_enhanced_def Let_def split: sum.splits option.splits prod.splits)

lemma predict_next_hour_enhanced_no_label:
  assumes "build_features w md = Inr f" and "X_pred f (feature_cols md) = Inr x"
     and "prediction_intervals md conf = None"
  shows "predict_next_hour_enhanced w md conf = Inl (KeyError conf)"
  using assms by (simp add: predict_next_hour_enhanced_def Let_def)

subsection \<open>The loop\<close>

lemma predict_next_hour_enhanced_ok:
  assumes "3 \<le> length w" and "set (feature_cols md) \<subseteq> set feature_names"
    and "prediction_intervals md conf = Some wd"
  shows "\<exists>p. predict_next_hour_enhanced w md conf = Inr p \<and> timestamp p = fst (last w) + one_hour"
proof -
  from build_features_ok [OF assms(1)] obtain f where f: "build_features w md = Inr f" by blast
  from predict_next_hour_enhanced_eval [OF f X_pred_ok [OF f assms(2)] assms(3)]
  show ?thesis by blast
qed

lemma length_tail_rows: "length (tail_rows k xs) = min k (length xs)"
  by (simp add: tail_rows_def)

lemma last_tail_rows: "0 < k \<Longrightarrow> xs \<noteq> [] \<Longrightarrow> last (tail_rows k xs) = last xs"
  by (simp add: tail_rows_def)

lemma length_extend_window: "3 \<le> length wd \<Longrightarrow> 3 \<le> length (extend_window wd p)"
  by (simp add: extend_window_def Let_def length_tail_rows)

lemma last_extend_window: "last (extend_window wd p) = (timestamp p, predicted_arrivals p)"
  by (simp add: extend_window_def Let_def last_tail_rows)

lemma forecast_loop_ok:
  assumes cols: "set (feature_cols md) \<subseteq> set feature_names"
    and lbl: "prediction_intervals md conf = Some wd0"
  shows "3 \<le> length wd \<Longrightarrow>
     \<exists>ps. forecast_loop hs wd md conf acc = Inr (acc @ ps) \<and> length ps = length hs
        \<and> (\<forall>i<length hs. timestamp (ps ! i) = fst (last wd) + (int i + 1) * one_hour)"
proof (induction hs arbitrary: wd acc)
  case Nil
  then show ?case by simp
next
  case (Cons h hs)
  from predict_next_hour_enhanced_ok [OF Cons.prems cols lbl]
  obtain p where p: "predict_next_hour_enhanced wd md conf = Inr p"
    and tp: "timestamp p = fst (last wd) + one_hour" by blast
  from Cons.IH [OF length_extend_window [OF Cons.prems], of p "acc @ [p]"]
  obtain ps where run: "forecast_loop hs (extend_window wd p) md conf (acc @ [p]) = Inr ((acc @ [p]) @ ps)"
    and len: "length ps = length hs"
    and ts: "\<forall>i<length hs. timestamp (ps ! i) = fst (last (extend_window wd p)) + (int i + 1) * one_hour"
    by blast
  have "forecast_loop (h # hs) wd md conf acc = Inr (acc @ (p # ps))"
    using p run by simp
  moreover have "length (p # ps) = length (h # hs)" using len by simp
  moreover have "timestamp ((p # ps) ! i) = fst (last wd) + (int i + 1) * one_hour"
    if "i < length (h # hs)" for i
  proof (cases i)
    case 0
    then show ?thesis using tp by simp
  next
    case (Suc j)
    with that have "j < length hs" by simp
    with ts have "timestamp (ps ! j) = timestamp p + (int j + 1) * one_hour"
      by (simp add: last_extend_window)
    then show ?thesis using Suc tp by (simp add: algebra_simps)
  qed
  ultimately show ?case by blast
qed

lemma upt_1_7: "[1..<7] = [1, 2, 3, 4, 5, 6::nat]"
  by (simp add: upt_rec)

lemma last_sorted_Max:
  fixes xs :: "int list"
  assumes "sorted xs" and "xs \<noteq> []"
  shows "last xs = Max (set xs)"
proof -
  have "\<forall>y\<in>set xs. y \<le> last xs"
    using assms by (induction xs) (auto split: if_splits)
  moreover have "last xs \<in> set xs" using assms(2) by simp
  ultimately show ?thesis by (intro Max_eqI [symmetric]) auto
qed

lemma sort_values_Nil: "(sort_values w = []) = (w = [])"
  unfolding sort_values_def by (metis set_sort set_empty)

lemma length_sort_values: "length (sort_values w) = length w"
  by (simp add: sort_values_def)

lemma fst_last_sort_values:
  assumes "w \<noteq> []"
  shows "fst (last (sort_values w)) = Max (fst ` set w)"
proof -
  have ne: "sort_values w \<noteq> []" using assms by (simp add: sort_values_Nil)
  have "fst (last (sort_values w)) = last (map fst (sort_values w))"
    using ne by (simp add: last_map)
  also have "\<dots> = Max (set (map fst (sort_values w)))"
    using ne by (intro last_sorted_Max) (simp_all add: sort_values_def)
  also have "\<dots> = Max (fst ` set w)" by (simp add: sort_values_def)
  finally show ?thesis .
qed

lemma sort_values_sorted: "sorted (map fst w) \<Longrightarrow> sort_values w = w"
  by (simp add: sort_values_def sort_key_id_if_sorted)

lemma predict_next_6_hours_unfold:
  "w \<noteq> [] \<Longrightarrow> predict_next_6_hours w md conf = forecast_loop [1..<7] (sort_values w) md conf []"
  by (simp add: predict_next_6_hours_def Let_def iloc_m1 sort_values_Nil)

lemma predict_next_6_hours_ok:
  assumes "3 \<le> length w" and "set (feature_cols md) \<subseteq> set feature_names"
    and "prediction_intervals md conf = Some wd0"
  shows "\<exists>ps. predict_next_6_hours w md conf = Inr ps \<and> length ps = 6
      \<and> (\<forall>i<6. timestamp (ps ! i) = Max (fst ` set w) + (int i + 1) * one_hour)"
proof -
  from assms(1) have ne: "w \<noteq> []" by auto
  have len: "3 \<le> length (sort_values w)" using assms(1) by (simp add: length_sort_values)
  from forecast_loop_ok [OF assms(2) assms(3) len, of "[1..<7]" "[]"]
  show ?thesis
    by (simp add: predict_next_6_hours_unfold [OF ne] fst_last_sort_values [OF ne])
qed

subsection \<open>The frames and dictionaries to evaluate on\<close>

lemma hourly_3: "hourly t [a, b, c] = [(t, a), (t + one_hour, b), (t + 2 * one_hour, c)]"
  by (simp add: hourly_def upt_rec)

lemma ran_widths_90: "ran widths_90 = {2}"
  by (simp add: widths_90_def)

lemma artifact_simps:
  "model (artifact p cols ws) = p"
  "feature_cols (artifact p cols ws) = cols"
  "prediction_intervals (artifact p cols ws) = ws"
  "contexts (artifact p cols ws) = no_contexts"
  "test_mae (artifact p cols ws) = 1"
  "high_load_threshold (artifact p cols ws) = 10"
  by (simp_all add: artifact_def no_contexts_def)

lemma hourly_2: "hourly t [a, b] = [(t, a), (t + one_hour, b)]"
  by (simp add: hourly_def upt_rec)

lemma dom_widths_90_95_99: "dom widths_90_95_99 = {''90%'', ''95%'', ''99%''}"
  by (auto simp add: widths_90_95_99_def)

lemma py_round_13_2: "py_round (13 / 2) = 6" "py_round (9 / 2) = 4" "py_round (17 / 2) = 8"
  by (simp_all add: py_round_def Let_def)

lemmas eval_step = predict_next_hour_enhanced_def build_features_def iloc_def Let_def X_pred_def
  feature_value_def artifact_simps ts_hour_def ts_dayofweek_def one_hour_def monday_10h_def
  int_of_bool_def py_round_def case_prod_beta extend_window_def tail_rows_def

lemmas classifier_eval = get_confidence_level_def context_mae_def dict_get_def load_cat_def
  example_contexts_def no_contexts_def fadd_def fmul_def fdiv_def double_0 double_pos
  pow2_below_eval py_round_def Let_def

section \<open>The first step of the end-to-end scenario\<close>

text \<open>
  Claim C1, as amended. Take the frame with the counts 5, 7, 6 at \<open>t\<close> minus two hours,
  \<open>t\<close> minus one hour and \<open>t\<close>, a width of 2 for the label 90%, a regressor that answers 6.5
  on every row, and a feature list that names only keys of the feature dictionary. The
  first step returns the predicted count 6, the lower bound 4 and the upper bound 8, with
  the timestamp \<open>t\<close> plus one hour; the row \<open>(t + 1h, 6)\<close> is appended to the working frame,
  and the six-step loop goes on from that frame with steps 2 to 6. In general a returned
  point has the predicted count \<open>round(raw)\<close>, the lower bound \<open>max(0, round(raw - width))\<close>
  and the upper bound \<open>round(raw + width)\<close>, where \<open>raw\<close> is the regressor's answer clamped
  at 0 and unrounded, and \<open>round\<close> gives a nearest integer, the even one at a tie.
\<close>

theorem end_to_end_first_step:
  assumes "prediction_intervals md ''90%'' = Some 2"
    and "\<forall>x. model md x = 6.5"
    and "set (feature_cols md) \<subseteq> set feature_names"
  shows "\<exists>p. predict_next_hour_enhanced [(t - 2 * one_hour, 5), (t - one_hour, 7), (t, 6)] md ''90%'' = Inr p
       \<and> predicted_arrivals p = 6 \<and> lower_bound p = 4 \<and> upper_bound p = 8
       \<and> timestamp p = t + one_hour
       \<and> extend_window [(t - 2 * one_hour, 5), (t - one_hour, 7), (t, 6)] p
            = [(t - 2 * one_hour, 5), (t - one_hour, 7), (t, 6), (t + one_hour, 6)]
       \<and> predict_next_6_hours [(t - 2 * one_hour, 5), (t - one_hour, 7), (t, 6)] md ''90%''
            = forecast_loop [2, 3, 4, 5, 6]
                [(t - 2 * one_hour, 5), (t - one_hour, 7), (t, 6), (t + one_hour, 6)] md ''90%'' [p]
       \<and> (\<forall>w' md' conf q. predict_next_hour_enhanced w' md' conf = Inr q \<longrightarrow>
            (\<exists>f x wd. build_features w' md' = Inr f \<and> X_pred f (feature_cols md') = Inr x
               \<and> prediction_intervals md' conf = Some wd
               \<and> predicted_arrivals q = py_round (max 0 (model md' x))
               \<and> lower_bound q = max 0 (py_round (max 0 (model md' x) - wd))
               \<and> upper_bound q = py_round (max 0 (model md' x) + wd)))
       \<and> (\<forall>r. \<bar>real_of_int (py_round r) - r\<bar> \<le> 1 / 2
              \<and> (\<bar>real_of_int (py_round r) - r\<bar> = 1 / 2 \<longrightarrow> even (py_round r)))"
proof -
  let ?w = "[(t - 2 * one_hour, 5), (t - one_hour, 7), (t, 6 :: int)]"
  have len: "3 \<le> length ?w" by simp
  from build_features_ok [OF len] obtain f where f: "build_features ?w md = Inr f" by blast
  note x = X_pred_ok [OF f assms(3)]
  from predict_next_hour_enhanced_eval [OF f x assms(1)] assms(2)
  obtain p where p: "predict_next_hour_enhanced ?w md ''90%'' = Inr p"
    and tp: "timestamp p = t + one_hour"
    and pa: "predicted_arrivals p = 6" and lb: "lower_bound p = 4" and ub: "upper_bound p = 8"
    by (auto simp add: py_round_13_2)
  have ext: "extend_window ?w p = ?w @ [(t + one_hour, 6)]"
    by (simp add: extend_window_def Let_def tp pa)
  have srt: "sort_values ?w = ?w"
    by (rule sort_values_sorted) (simp add: one_hour_def)
  have six: "predict_next_6_hours ?w md ''90%''
     = forecast_loop [2, 3, 4, 5, 6] (?w @ [(t + one_hour, 6)]) md ''90%'' [p]"
  proof -
    have "predict_next_6_hours ?w md ''90%'' = forecast_loop [1..<7] (sort_values ?w) md ''90%'' []"
      by (rule predict_next_6_hours_unfold) simp
    also have "\<dots> = forecast_loop [1, 2, 3, 4, 5, 6] ?w md ''90%'' []"
      by (simp only: srt upt_1_7)
    also have "\<dots> = forecast_loop [2, 3, 4, 5, 6] (extend_window ?w p) md ''90%'' ([] @ [p])"
      by (simp only: forecast_loop.simps p sum.case)
    also have "\<dots> = forecast_loop [2, 3, 4, 5, 6] (?w @ [(t + one_hour, 6)]) md ''90%'' [p]"
      by (simp only: ext append_Nil)
    finally show ?thesis .
  qed
  have gen: "\<exists>f x wd. build_features w' md' = Inr f \<and> X_pred f (feature_cols md') = Inr x
               \<and> prediction_intervals md' conf = Some wd
               \<and> predicted_arrivals q = py_round (max 0 (model md' x))
               \<and> lower_bound q = max 0 (py_round (max 0 (model md' x) - wd))
               \<and> upper_bound q = py_round (max 0 (model md' x) + wd)"
    if "predict_next_hour_enhanced w' md' conf = Inr q" for w' md' conf q
    using predict_next_hour_enhanced_Inr [OF that] by blast
  have rnd: "\<bar>real_of_int (py_round r) - r\<bar> \<le> 1 / 2
              \<and> (\<bar>real_of_int (py_round r) - r\<bar> = 1 / 2 \<longrightarrow> even (py_round r))" for r
    using py_round_nearest [of r] py_round_tie [of r] by blast
  show ?thesis
  proof (intro exI [of _ p] conjI)
    show "predict_next_hour_enhanced ?w md ''90%'' = Inr p" by (rule p)
    show "predicted_arrivals p = 6" by (rule pa)
    show "lower_bound p = 4" by (rule lb)
    show "upper_bound p = 8" by (rule ub)
    show "timestamp p = t + one_hour" by (rule tp)
    show "extend_window ?w p = [(t - 2 * one_hour, 5), (t - one_hour, 7), (t, 6), (t + one_hour, 6)]"
      using ext by simp
    show "predict_next_6_hours ?w md ''90%''
       = forecast_loop [2, 3, 4, 5, 6]
           [(t - 2 * one_hour, 5), (t - one_hour, 7), (t, 6), (t + one_hour, 6)] md ''90%'' [p]"
      using six by simp
    show "\<forall>w' md' conf q. predict_next_hour_enhanced w' md' conf = Inr q \<longrightarrow>
            (\<exists>f x wd. build_features w' md' = Inr f \<and> X_pred f (feature_cols md') = Inr x
               \<and> prediction_intervals md' conf = Some wd
               \<and> predicted_arrivals q = py_round (max 0 (model md' x))
               \<and> lower_bound q = max 0 (py_round (max 0 (model md' x) - wd))
               \<and> upper_bound q = py_round (max 0 (model md' x) + wd))"
      using gen by blast
    show "\<forall>r. \<bar>real_of_int (py_round r) - r\<bar> \<le> 1 / 2
              \<and> (\<bar>real_of_int (py_round r) - r\<bar> = 1 / 2 \<longrightarrow> even (py_round r))"
      using rnd by blast
  qed
qed

theorem end_to_end_first_step_witness:
  "prediction_intervals (artifact (constant_predictor 6.5) [''lag_1'', ''lag_2'', ''lag_3''] widths_90) ''90%'' = Some 2
   \<and> (\<forall>x. model (artifact (constant_predictor 6.5) [''lag_1'', ''lag_2'', ''lag_3''] widths_90) x = 6.5)
   \<and> set (feature_cols (artifact (constant_predictor 6.5) [''lag_1'', ''lag_2'', ''lag_3''] widths_90))
        \<subseteq> set feature_names
   \<and> (\<exists>p. predict_next_hour_enhanced
              [(monday_10h - 2 * one_hour, 5), (monday_10h - one_hour, 7), (monday_10h, 6)]
              (artifact (constant_predictor 6.5) [''lag_1'', ''lag_2'', ''lag_3''] widths_90) ''90%'' = Inr p
          \<and> bounds_of p = (6, 4, 8) \<and> timestamp p = monday_10h + one_hour
          \<and> predicted_arrivals p = py_round (max 0 6.5))"
proof -
  let ?md = "artifact (constant_predictor 6.5) [''lag_1'', ''lag_2'', ''lag_3''] widths_90"
  have a: "prediction_intervals ?md ''90%'' = Some 2"
    by (simp add: artifact_simps widths_90_def)
  have b: "\<forall>x. model ?md x = 6.5"
    by (simp add: artifact_simps constant_predictor_def)
  have c: "set (feature_cols ?md) \<subseteq> set feature_names"
    by (simp add: artifact_simps feature_names_def)
  from end_to_end_first_step [OF a b c, of monday_10h]
  obtain p where "predict_next_hour_enhanced
              [(monday_10h - 2 * one_hour, 5), (monday_10h - one_hour, 7), (monday_10h, 6)] ?md ''90%'' = Inr p"
    and "predicted_arrivals p = 6" "lower_bound p = 4" "upper_bound p = 8"
    and "timestamp p = monday_10h + one_hour" by blast
  moreover have "py_round (max 0 6.5) = 6" by (simp add: py_round_def Let_def)
  ultimately show ?thesis using a b c by (simp add: bounds_of_def)
qed

text \<open>
  The claim as stated fails on the frame of 2024-01-01 with the counts 5, 7, 6 at 10:00,
  11:00 and 12:00: 6.5, 4.5 and 8.5 are ties, which \<^verbatim>\<open>round\<close> sends to the even
  neighbours 6, 4 and 8, not to 7, 5 and 9.
\<close>

theorem end_to_end_first_step_counterexample:
  "prediction_intervals (artifact (constant_predictor 6.5) [''lag_1'', ''lag_2'', ''lag_3''] widths_90) ''90%'' = Some 2
   \<and> map_sum id bounds_of
        (predict_next_hour_enhanced (hourly monday_10h [5, 7, 6])
           (artifact (constant_predictor 6.5) [''lag_1'', ''lag_2'', ''lag_3''] widths_90) ''90%'')
       = Inr (6, 4, 8)
   \<and> map_sum id bounds_of
        (predict_next_hour_enhanced (hourly monday_10h [5, 7, 6])
           (artifact (constant_predictor 6.5) [''lag_1'', ''lag_2'', ''lag_3''] widths_90) ''90%'')
       \<noteq> Inr (7, 5, 9)"
  by (simp add: hourly_3 eval_step widths_90_def constant_predictor_def bounds_of_def)

section \<open>The confidence bands\<close>

text \<open>
  Claim C2, as amended. The blended error is the mean of three lookups as the code computes
  it on doubles, \<open>((hour + load) + weekday) / 3\<close> with each operation rounded, where each
  lookup falls back to the base error when its key is absent: the MAE of the hour, the MAE
  of the load bucket (count up to 3 is low, up to 6 medium, up to 10 high, above that
  extreme) and the MAE of the weekday. With the lower bound \<open>base * 0.85\<close> and the upper
  bound \<open>base * 1.15\<close>, each a rounded product with the double nearest to the literal, the
  label is high exactly when the blended error is below the lower bound, medium exactly
  when it is at least the lower bound and below the upper bound, and low exactly when it is
  below neither. A blended error equal to the lower bound gives medium when the lower bound
  is below the upper bound, and one equal to the upper bound gives low when the lower bound
  is at most the upper bound. The lower bound is below the upper bound for every base error
  of at least \<open>2 ^ -1021\<close>.
\<close>

theorem confidence_bands:
  "context_mae h c d ctxs b =
      fdiv (fadd (fadd (case ctx_hour ctxs h of None \<Rightarrow> b | Some v \<Rightarrow> v)
                       (case ctx_load_level ctxs
                               (if c \<le> 3 then ''low'' else if c \<le> 6 then ''medium''
                                else if c \<le> 10 then ''high'' else ''extreme'') of
                          None \<Rightarrow> b | Some v \<Rightarrow> v))
                 (case ctx_day_of_week ctxs d of None \<Rightarrow> b | Some v \<Rightarrow> v)) 3
   \<and> snd (get_confidence_level h c d ctxs b) = context_mae h c d ctxs b
   \<and> (fst (get_confidence_level h c d ctxs b) = ''high'')
        = (context_mae h c d ctxs b < fmul b (double 0.85))
   \<and> (fst (get_confidence_level h c d ctxs b) = ''medium'')
        = (fmul b (double 0.85) \<le> context_mae h c d ctxs b
             \<and> context_mae h c d ctxs b < fmul b (double 1.15))
   \<and> (fst (get_confidence_level h c d ctxs b) = ''low'')
        = (\<not> context_mae h c d ctxs b < fmul b (double 0.85)
             \<and> \<not> context_mae h c d ctxs b < fmul b (double 1.15))
   \<and> (fmul b (double 0.85) < fmul b (double 1.15) \<longrightarrow>
         context_mae h c d ctxs b = fmul b (double 0.85) \<longrightarrow>
         fst (get_confidence_level h c d ctxs b) = ''medium'')
   \<and> (fmul b (double 0.85) \<le> fmul b (double 1.15) \<longrightarrow>
         context_mae h c d ctxs b = fmul b (double 1.15) \<longrightarrow>
         fst (get_confidence_level h c d ctxs b) = ''low'')
   \<and> (2 * min_normal \<le> b \<longrightarrow> fmul b (double 0.85) < fmul b (double 1.15))"
proof -
  define cm where "cm = context_mae h c d ctxs b"
  define lo where "lo = fmul b (double 0.85)"
  define hi where "hi = fmul b (double 1.15)"
  have mean: "context_mae h c d ctxs b =
      fdiv (fadd (fadd (case ctx_hour ctxs h of None \<Rightarrow> b | Some v \<Rightarrow> v)
                       (case ctx_load_level ctxs
                               (if c \<le> 3 then ''low'' else if c \<le> 6 then ''medium''
                                else if c \<le> 10 then ''high'' else ''extreme'') of
                          None \<Rightarrow> b | Some v \<Rightarrow> v))
                 (case ctx_day_of_week ctxs d of None \<Rightarrow> b | Some v \<Rightarrow> v)) 3"
    by (simp add: context_mae_def dict_get_def load_cat_def Let_def)
  have g: "get_confidence_level h c d ctxs b =
      (if cm < lo then (''high'', cm) else if cm < hi then (''medium'', cm) else (''low'', cm))"
    by (simp add: get_confidence_level_def Let_def cm_def lo_def hi_def)
  have s: "snd (get_confidence_level h c d ctxs b) = cm" by (simp add: g)
  have high: "(fst (get_confidence_level h c d ctxs b) = ''high'') = (cm < lo)"
    by (simp add: g)
  have med: "(fst (get_confidence_level h c d ctxs b) = ''medium'') = (lo \<le> cm \<and> cm < hi)"
    by (auto simp add: g)
  have low: "(fst (get_confidence_level h c d ctxs b) = ''low'') = (\<not> cm < lo \<and> \<not> cm < hi)"
    by (auto simp add: g)
  have b1: "fst (get_confidence_level h c d ctxs b) = ''medium''" if "lo < hi" "cm = lo"
    using that by (simp add: med)
  have b2: "fst (get_confidence_level h c d ctxs b) = ''low''" if "lo \<le> hi" "cm = hi"
    using that by (simp add: low)
  have ap: "lo < hi" if "2 * min_normal \<le> b"
    unfolding lo_def hi_def by (rule thresholds_apart [OF that])
  from mean s high med low b1 b2 ap show ?thesis
    unfolding cm_def lo_def hi_def by blast
qed

theorem confidence_bands_witness:
  "fmul 1 (double 0.85) < fmul 1 (double 1.15)
   \<and> context_mae 10 5 0 (example_contexts (double 0.85) (double 0.85) (double 0.85)) 1
        = fmul 1 (double 0.85)
   \<and> fst (get_confidence_level 10 5 0
             (example_contexts (double 0.85) (double 0.85) (double 0.85)) 1) = ''medium''
   \<and> context_mae 10 5 0 (example_contexts (double 1.15) (double 1.15) (double 1.15)) 1
        = fmul 1 (double 1.15)
   \<and> fst (get_confidence_level 10 5 0
             (example_contexts (double 1.15) (double 1.15) (double 1.15)) 1) = ''low''
   \<and> 2 * min_normal \<le> 1"
proof -
  have t: "fmul 1 (double 0.85) < fmul 1 (double 1.15)"
    by (simp add: fmul_def double_085 double_115 double_pos pow2_below_eval py_round_def Let_def)
  have a: "context_mae 10 5 0 (example_contexts (double 0.85) (double 0.85) (double 0.85)) 1
        = fmul 1 (double 0.85)"
    by (simp add: double_085 classifier_eval)
  have b: "context_mae 10 5 0 (example_contexts (double 1.15) (double 1.15) (double 1.15)) 1
        = fmul 1 (double 1.15)"
    by (simp add: double_115 classifier_eval)
  have n: "2 * min_normal \<le> 1" using min_normal_le by simp
  from confidence_bands [of 10 5 0 "example_contexts (double 0.85) (double 0.85) (double 0.85)" 1]
       confidence_bands [of 10 5 0 "example_contexts (double 1.15) (double 1.15) (double 1.15)" 1]
       t a b n
  show ?thesis by simp
qed

text \<open>
  The claim as stated fails in two ways. At the base error 0 with empty tables the blended
  error is 0, which equals 0.85 times the base error, and the label is low, not medium.
  And the mean and the bounds are rounded: with the MAEs 0.33, 0.6 and 0.6 and the base
  error 0.6, the exact mean of the three doubles is at least 0.85 times the base error and
  below 1.15 times it, which the claim labels medium, but the mean as computed is
  0.5099999999999999, below the computed bound 0.51, and the label is high.
\<close>

theorem confidence_bands_counterexample:
  "context_mae 10 5 0 no_contexts 0 = 0.85 * 0
   \<and> fst (get_confidence_level 10 5 0 no_contexts 0) = ''low''
   \<and> 0.85 * double 0.6 \<le> (double 0.33 + double 0.6 + double 0.6) / 3
   \<and> (double 0.33 + double 0.6 + double 0.6) / 3 < 1.15 * double 0.6
   \<and> fst (get_confidence_level 10 5 0
             (example_contexts (double 0.33) (double 0.6) (double 0.6)) (double 0.6)) = ''high''"
proof -
  have d33: "double 0.33 = 5944751508129055 / 18014398509481984"
    by (simp add: double_pos pow2_below_eval py_round_def Let_def)
  have d6: "double 0.6 = 5404319552844595 / 9007199254740992"
    by (simp add: double_pos pow2_below_eval py_round_def Let_def)
  have a: "context_mae 10 5 0 no_contexts 0 = 0.85 * 0"
    by (simp add: classifier_eval)
  have b: "fst (get_confidence_level 10 5 0 no_contexts 0) = ''low''"
    by (simp add: classifier_eval)
  have c: "0.85 * double 0.6 \<le> (double 0.33 + double 0.6 + double 0.6) / 3"
    unfolding d33 d6 by simp
  have d: "(double 0.33 + double 0.6 + double 0.6) / 3 < 1.15 * double 0.6"
    unfolding d33 d6 by simp
  have e: "fst (get_confidence_level 10 5 0
             (example_contexts (double 0.33) (double 0.6) (double 0.6)) (double 0.6)) = ''high''"
    unfolding d33 d6 by (simp add: double_085 classifier_eval)
  from a b c d e show ?thesis by simp
qed

section \<open>Six points, one hour apart\<close>

lemma one_hour_pos: "0 < one_hour"
  by (simp add: one_hour_def)

text \<open>
  Claim C3, as amended. For a frame of at least 3 rows, a model dictionary whose feature
  list names only keys of the feature dictionary, and a label that is a key of the widths,
  the six-step loop returns a list of exactly 6 points. The timestamp of point \<open>i\<close>
  (counted from 0) is the latest timestamp of the frame plus \<open>i + 1\<close> hours, so each point is
  exactly one hour after the one before it, and the first is one hour after the last row
  when the frame is sorted by timestamp.
\<close>

theorem six_hourly_points:
  assumes "3 \<le> length w" and "set (feature_cols md) \<subseteq> set feature_names"
    and "conf \<in> dom (prediction_intervals md)"
  shows "\<exists>ps. predict_next_6_hours w md conf = Inr ps \<and> length ps = 6
      \<and> (\<forall>i<6. timestamp (ps ! i) = Max (fst ` set w) + (int i + 1) * one_hour)
      \<and> (\<forall>i<5. timestamp (ps ! Suc i) = timestamp (ps ! i) + one_hour
                \<and> timestamp (ps ! i) < timestamp (ps ! Suc i))
      \<and> (sorted (map fst w) \<longrightarrow> timestamp (ps ! 0) = fst (last w) + one_hour)"
proof -
  from assms(3) obtain wd where wd: "prediction_intervals md conf = Some wd" by auto
  from predict_next_6_hours_ok [OF assms(1) assms(2) wd]
  obtain ps where run: "predict_next_6_hours w md conf = Inr ps" and len: "length ps = 6"
    and ts: "\<forall>i<6. timestamp (ps ! i) = Max (fst ` set w) + (int i + 1) * one_hour" by blast
  from assms(1) have ne: "w \<noteq> []" by auto
  have step: "timestamp (ps ! Suc i) = timestamp (ps ! i) + one_hour
      \<and> timestamp (ps ! i) < timestamp (ps ! Suc i)" if "i < 5" for i
  proof -
    from that ts have "timestamp (ps ! i) = Max (fst ` set w) + (int i + 1) * one_hour"
      and "timestamp (ps ! Suc i) = Max (fst ` set w) + (int (Suc i) + 1) * one_hour"
      by simp_all
    then show ?thesis using one_hour_pos by (simp add: algebra_simps)
  qed
  have first: "timestamp (ps ! 0) = fst (last w) + one_hour" if "sorted (map fst w)"
  proof -
    have "fst (last w) = Max (fst ` set w)"
      using fst_last_sort_values [OF ne] sort_values_sorted [OF that] by simp
    with ts show ?thesis by simp
  qed
  from run len ts step first show ?thesis by blast
qed

theorem six_hourly_points_witness:
  "3 \<le> length (hourly monday_10h [5, 7, 6])
   \<and> set (feature_cols (artifact first_column [''lag_1'', ''lag_2'', ''lag_3''] widths_90))
        \<subseteq> set feature_names
   \<and> ''90%'' \<in> dom (prediction_intervals (artifact first_column [''lag_1'', ''lag_2'', ''lag_3''] widths_90))
   \<and> sorted (map fst (hourly monday_10h [5, 7, 6]))
   \<and> (\<exists>ps. predict_next_6_hours (hourly monday_10h [5, 7, 6])
              (artifact first_column [''lag_1'', ''lag_2'', ''lag_3''] widths_90) ''90%'' = Inr ps
          \<and> length ps = 6
          \<and> map timestamp ps = map (\<lambda>k. monday_10h + k * one_hour) [3, 4, 5, 6, 7, 8])"
proof -
  let ?md = "artifact first_column [''lag_1'', ''lag_2'', ''lag_3''] widths_90"
  let ?w = "hourly monday_10h [5, 7, 6]"
  have a: "3 \<le> length ?w" by (simp add: hourly_3)
  have b: "set (feature_cols ?md) \<subseteq> set feature_names"
    by (simp add: artifact_simps feature_names_def)
  have c: "''90%'' \<in> dom (prediction_intervals ?md)"
    by (simp add: artifact_simps widths_90_def)
  have d: "sorted (map fst ?w)" by (simp add: hourly_3 one_hour_def)
  have m: "Max (fst ` set ?w) = monday_10h + 2 * one_hour"
    by (simp add: hourly_3 one_hour_def)
  from six_hourly_points [OF a b c]
  obtain ps where run: "predict_next_6_hours ?w ?md ''90%'' = Inr ps" and len: "length ps = 6"
    and ts: "\<forall>i<6. timestamp (ps ! i) = Max (fst ` set ?w) + (int i + 1) * one_hour" by blast
  have "map timestamp ps = map (\<lambda>k. monday_10h + k * one_hour) [3, 4, 5, 6, 7, 8]"
  proof (rule nth_equalityI)
    show "length (map timestamp ps) = length (map (\<lambda>k. monday_10h + k * one_hour) [3, 4, 5, 6, 7, 8])"
      using len by simp
    fix i assume "i < length (map timestamp ps)"
    then have i: "i < 6" using len by simp
    then consider "i = 0" | "i = 1" | "i = 2" | "i = 3" | "i = 4" | "i = 5" by linarith
    then show "map timestamp ps ! i = map (\<lambda>k. monday_10h + k * one_hour) [3, 4, 5, 6, 7, 8] ! i"
      using ts len m by cases (simp_all add: algebra_simps)
  qed
  with a b c d run len show ?thesis by blast
qed

text \<open>
  The claim as stated, for every model dictionary with the label present, fails: a feature
  list that names a column the one-row frame does not have makes the column selection of
  line 98 raise in the first step, and the loop returns no point.
\<close>

theorem six_hourly_points_counterexample:
  "3 \<le> length (hourly monday_10h [5, 7, 6])
   \<and> ''90%'' \<in> dom (prediction_intervals (artifact first_column [''foo''] widths_90))
   \<and> predict_next_6_hours (hourly monday_10h [5, 7, 6]) (artifact first_column [''foo''] widths_90) ''90%''
       = Inl (KeyError_columns [''foo''])"
  unfolding predict_next_6_hours_def upt_1_7
  by (simp add: hourly_3 artifact_simps widths_90_def predict_next_hour_enhanced_def
      build_features_def iloc_def Let_def X_pred_def feature_value_def sort_values_def one_hour_def)

section \<open>Ordering of the interval bounds\<close>

lemma predict_next_hour_enhanced_bounds:
  assumes "predict_next_hour_enhanced w md conf = Inr p"
    and "\<forall>wd\<in>ran (prediction_intervals md). 0 \<le> wd"
  shows "0 \<le> lower_bound p \<and> lower_bound p \<le> predicted_arrivals p
       \<and> predicted_arrivals p \<le> upper_bound p"
proof -
  from predict_next_hour_enhanced_Inr [OF assms(1)]
  obtain x wd where wd: "prediction_intervals md conf = Some wd"
    and pa: "predicted_arrivals p = py_round (max 0 (model md x))"
    and lb: "lower_bound p = max 0 (py_round (max 0 (model md x) - wd))"
    and ub: "upper_bound p = py_round (max 0 (model md x) + wd)" by blast
  from wd assms(2) have w0: "0 \<le> wd" by (auto simp: ran_def)
  have "0 \<le> py_round (max 0 (model md x))" by (rule py_round_nonneg) simp
  moreover have "py_round (max 0 (model md x) - wd) \<le> py_round (max 0 (model md x))"
    by (rule py_round_mono) (use w0 in simp)
  moreover have "py_round (max 0 (model md x)) \<le> py_round (max 0 (model md x) + wd)"
    by (rule py_round_mono) (use w0 in simp)
  ultimately show ?thesis using pa lb ub by simp
qed

lemma forecast_loop_bounds:
  assumes "\<forall>wd\<in>ran (prediction_intervals md). 0 \<le> wd"
  shows "forecast_loop hs wd md conf acc = Inr ps \<Longrightarrow>
     \<forall>p\<in>set acc. 0 \<le> lower_bound p \<and> lower_bound p \<le> predicted_arrivals p
        \<and> predicted_arrivals p \<le> upper_bound p \<Longrightarrow>
     \<forall>p\<in>set ps. 0 \<le> lower_bound p \<and> lower_bound p \<le> predicted_arrivals p
        \<and> predicted_arrivals p \<le> upper_bound p"
proof (induction hs arbitrary: wd acc)
  case Nil
  then show ?case by simp
next
  case (Cons h hs)
  from Cons.prems(1) obtain q where q: "predict_next_hour_enhanced wd md conf = Inr q"
    and run: "forecast_loop hs (extend_window wd q) md conf (acc @ [q]) = Inr ps"
    by (auto split: sum.splits)
  from predict_next_hour_enhanced_bounds [OF q assms] Cons.prems(2)
  have "\<forall>p\<in>set (acc @ [q]). 0 \<le> lower_bound p \<and> lower_bound p \<le> predicted_arrivals p
        \<and> predicted_arrivals p \<le> upper_bound p" by auto
  then show ?case by (rule Cons.IH [OF run])
qed

text \<open>
  Claim C4. When no width of the model dictionary is negative, every forecast point that
  the single step returns, and every point of the list that the six-step loop returns,
  has \<open>0 \<le> lower_bound \<le> predicted_arrivals \<le> upper_bound\<close>. A point is returned only
  when the requested label is a key of the widths.
\<close>

theorem forecast_point_ordering:
  assumes "\<forall>wd\<in>ran (prediction_intervals md). 0 \<le> wd"
  shows "(\<forall>p. predict_next_hour_enhanced w md conf = Inr p \<longrightarrow>
            0 \<le> lower_bound p \<and> lower_bound p \<le> predicted_arrivals p
              \<and> predicted_arrivals p \<le> upper_bound p)
       \<and> (\<forall>ps. predict_next_6_hours w md conf = Inr ps \<longrightarrow>
            (\<forall>p\<in>set ps. 0 \<le> lower_bound p \<and> lower_bound p \<le> predicted_arrivals p
              \<and> predicted_arrivals p \<le> upper_bound p))"
proof -
  have one: "0 \<le> lower_bound p \<and> lower_bound p \<le> predicted_arrivals p
     \<and> predicted_arrivals p \<le> upper_bound p"
    if "predict_next_hour_enhanced w md conf = Inr p" for p
    using predict_next_hour_enhanced_bounds [OF that assms] .
  have six: "\<forall>p\<in>set ps. 0 \<le> lower_bound p \<and> lower_bound p \<le> predicted_arrivals p
     \<and> predicted_arrivals p \<le> upper_bound p"
    if run: "predict_next_6_hours w md conf = Inr ps" for ps
  proof -
    from run have "forecast_loop [1..<7] (sort_values w) md conf [] = Inr ps"
      by (auto simp add: predict_next_6_hours_def Let_def split: sum.splits)
    from forecast_loop_bounds [OF assms this] show ?thesis by simp
  qed
  from one six show ?thesis by blast
qed

theorem forecast_point_ordering_witness:
  "ran (prediction_intervals (artifact first_column [''lag_1'', ''lag_2'', ''lag_3''] widths_90)) = {2}
   \<and> (\<exists>ps. predict_next_6_hours (hourly monday_10h [5, 7, 6])
               (artifact first_column [''lag_1'', ''lag_2'', ''lag_3''] widths_90) ''90%'' = Inr ps
          \<and> length ps = 6
          \<and> (\<forall>p\<in>set ps. 0 \<le> lower_bound p \<and> lower_bound p \<le> predicted_arrivals p
                \<and> predicted_arrivals p \<le> upper_bound p))"
proof -
  let ?md = "artifact first_column [''lag_1'', ''lag_2'', ''lag_3''] widths_90"
  let ?w = "hourly monday_10h [5, 7, 6]"
  have h: "\<forall>wd\<in>ran (prediction_intervals ?md). 0 \<le> wd"
    by (simp add: artifact_simps ran_widths_90)
  have "3 \<le> length ?w" by (simp add: hourly_3)
  moreover have "set (feature_cols ?md) \<subseteq> set feature_names"
    by (simp add: artifact_simps feature_names_def)
  moreover have "prediction_intervals ?md ''90%'' = Some 2"
    by (simp add: artifact_simps widths_90_def)
  ultimately obtain ps where ps: "predict_next_6_hours ?w ?md ''90%'' = Inr ps" "length ps = 6"
    using predict_next_6_hours_ok [of ?w ?md "''90%''" 2] by blast
  moreover have "ran (prediction_intervals ?md) = {2}"
    by (simp add: artifact_simps ran_widths_90)
  ultimately show ?thesis using forecast_point_ordering [OF h, of ?w "''90%''"] by blast
qed

section \<open>An unknown interval label\<close>

text \<open>
  Claim C5, as amended. On a frame of at least 3 rows and a model dictionary whose feature
  list names only keys of the feature dictionary, the single step raises the \<^verbatim>\<open>KeyError\<close>
  of the width lookup exactly when the requested label is no key of the widths, and
  returns a point otherwise. Asking for 80% of widths with the keys 90%, 95% and 99%
  raises it.
\<close>

theorem unknown_confidence_interval:
  assumes "3 \<le> length w" and "set (feature_cols md) \<subseteq> set feature_names"
  shows "(predict_next_hour_enhanced w md conf = Inl (KeyError conf))
            = (conf \<notin> dom (prediction_intervals md))
       \<and> (conf \<in> dom (prediction_intervals md) \<longrightarrow>
            (\<exists>p. predict_next_hour_enhanced w md conf = Inr p))
       \<and> (dom (prediction_intervals md) = {''90%'', ''95%'', ''99%''} \<longrightarrow>
            predict_next_hour_enhanced w md ''80%'' = Inl (KeyError ''80%''))"
proof -
  from build_features_ok [OF assms(1)] obtain f where f: "build_features w md = Inr f" by blast
  note x = X_pred_ok [OF f assms(2)]
  have absent: "predict_next_hour_enhanced w md c = Inl (KeyError c)"
    if "c \<notin> dom (prediction_intervals md)" for c
    using predict_next_hour_enhanced_no_label [OF f x, of c] that by (simp add: domIff)
  have present: "\<exists>p. predict_next_hour_enhanced w md c = Inr p"
    if "c \<in> dom (prediction_intervals md)" for c
  proof -
    from that obtain wd where "prediction_intervals md c = Some wd" by auto
    from predict_next_hour_enhanced_eval [OF f x this] show ?thesis by blast
  qed
  have "(predict_next_hour_enhanced w md conf = Inl (KeyError conf))
            = (conf \<notin> dom (prediction_intervals md))"
  proof (cases "conf \<in> dom (prediction_intervals md)")
    case True
    from present [OF True] obtain p where "predict_next_hour_enhanced w md conf = Inr p" ..
    with True show ?thesis by simp
  next
    case False
    with absent [OF False] show ?thesis by simp
  qed
  moreover have "predict_next_hour_enhanced w md ''80%'' = Inl (KeyError ''80%'')"
    if "dom (prediction_intervals md) = {''90%'', ''95%'', ''99%''}"
    by (rule absent) (simp add: that)
  ultimately show ?thesis using present [of conf] by blast
qed

theorem unknown_confidence_interval_witness:
  "3 \<le> length (hourly monday_10h [5, 7, 6])
   \<and> set (feature_cols (artifact first_column [''lag_1'', ''lag_2'', ''lag_3''] widths_90_95_99))
        \<subseteq> set feature_names
   \<and> ''95%'' \<in> dom (prediction_intervals (artifact first_column [''lag_1'', ''lag_2'', ''lag_3''] widths_90_95_99))
   \<and> (\<exists>p. predict_next_hour_enhanced (hourly monday_10h [5, 7, 6])
          (artifact first_column [''lag_1'', ''lag_2'', ''lag_3''] widths_90_95_99) ''95%'' = Inr p)
   \<and> dom (prediction_intervals (artifact first_column [''lag_1'', ''lag_2'', ''lag_3''] widths_90_95_99))
        = {''90%'', ''95%'', ''99%''}
   \<and> predict_next_hour_enhanced (hourly monday_10h [5, 7, 6])
          (artifact first_column [''lag_1'', ''lag_2'', ''lag_3''] widths_90_95_99) ''80%''
        = Inl (KeyError ''80%'')"
proof -
  let ?md = "artifact first_column [''lag_1'', ''lag_2'', ''lag_3''] widths_90_95_99"
  let ?w = "hourly monday_10h [5, 7, 6]"
  have a: "3 \<le> length ?w" by (simp add: hourly_3)
  have b: "set (feature_cols ?md) \<subseteq> set feature_names"
    by (simp add: artifact_simps feature_names_def)
  have d: "dom (prediction_intervals ?md) = {''90%'', ''95%'', ''99%''}"
    by (simp add: artifact_simps dom_widths_90_95_99)
  have c: "''95%'' \<in> dom (prediction_intervals ?md)" by (simp add: d)
  from unknown_confidence_interval [OF a b, of "''95%''"] a b c d show ?thesis by blast
qed

text \<open>
  The claim as stated, for every model dictionary, fails: with a feature list that names a
  column the one-row frame does not have, the column selection of line 98 raises first,
  and the exception is the one of the selection, not the one of the label; it is raised
  for a label that is a key as well.
\<close>

theorem unknown_confidence_interval_counterexample:
  "3 \<le> length (hourly monday_10h [5, 7, 6])
   \<and> ''80%'' \<notin> dom (prediction_intervals (artifact first_column [''foo''] widths_90_95_99))
   \<and> predict_next_hour_enhanced (hourly monday_10h [5, 7, 6])
        (artifact first_column [''foo''] widths_90_95_99) ''80%'' = Inl (KeyError_columns [''foo''])
   \<and> predict_next_hour_enhanced (hourly monday_10h [5, 7, 6])
        (artifact first_column [''foo''] widths_90_95_99) ''80%'' \<noteq> Inl (KeyError ''80%'')
   \<and> ''90%'' \<in> dom (prediction_intervals (artifact first_column [''foo''] widths_90_95_99))
   \<and> predict_next_hour_enhanced (hourly monday_10h [5, 7, 6])
        (artifact first_column [''foo''] widths_90_95_99) ''90%'' = Inl (KeyError_columns [''foo''])"
  by (simp add: hourly_3 artifact_simps dom_widths_90_95_99 predict_next_hour_enhanced_def
      build_features_def iloc_def Let_def X_pred_def feature_value_def)

section \<open>Fewer than three rows\<close>

lemma predict_next_6_hours_short:
  assumes "length w < 3"
  shows "predict_next_6_hours w md conf = Inl IndexError"
proof (cases "w = []")
  case True
  then show ?thesis by (simp add: predict_next_6_hours_def sort_values_def iloc_m1)
next
  case False
  have "predict_next_hour_enhanced (sort_values w) md conf = Inl IndexError"
    using assms by (simp add: predict_next_hour_enhanced_short length_sort_values)
  then show ?thesis
    unfolding predict_next_6_hours_unfold [OF False] upt_1_7 by simp
qed

text \<open>
  Claim C6. On a frame of fewer than 3 rows the single step raises: \<^verbatim>\<open>.iloc[-1]\<close>,
  \<^verbatim>\<open>.iloc[-2]\<close> or \<^verbatim>\<open>.iloc[-3]\<close> is out of bounds, and the exception is \<^verbatim>\<open>IndexError\<close>, the
  module's form of the insufficient-data error. The six-step loop calls the step once, does
  not catch the exception and returns no point. The endpoint never answers such a frame
  with a forecast.
\<close>

theorem insufficient_data:
  assumes "length w < 3"
  shows "predict_next_hour_enhanced w md conf = Inl IndexError
       \<and> predict_next_6_hours w md conf = Inl IndexError
       \<and> (\<forall>loaded c ps.
            forecast_icu_load loaded \<lparr> req_recent_data = Some w, req_confidence_level = c \<rparr>
              \<noteq> Response_200 ps)"
proof -
  have "forecast_icu_load loaded \<lparr> req_recent_data = Some w, req_confidence_level = c \<rparr>
      \<noteq> Response_200 ps" for loaded c ps
    using assms by (simp add: forecast_icu_load_def split: option.splits)
  then show ?thesis
    using predict_next_hour_enhanced_short [OF assms] predict_next_6_hours_short [OF assms]
    by simp
qed

theorem insufficient_data_witness:
  "length (hourly monday_10h [5, 7]) < 3
   \<and> predict_next_hour_enhanced (hourly monday_10h [5, 7])
        (artifact first_column [''lag_1'', ''lag_2'', ''lag_3''] widths_90) ''90%'' = Inl IndexError
   \<and> predict_next_6_hours (hourly monday_10h [5, 7])
        (artifact first_column [''lag_1'', ''lag_2'', ''lag_3''] widths_90) ''90%'' = Inl IndexError
   \<and> forecast_icu_load (Some (artifact first_column [''lag_1'', ''lag_2'', ''lag_3''] widths_90))
        \<lparr> req_recent_data = Some (hourly monday_10h [5, 7]), req_confidence_level = None \<rparr>
       = Response_400 Need_3_hours"
  using insufficient_data [of "hourly monday_10h [5, 7]"
      "artifact first_column [''lag_1'', ''lag_2'', ''lag_3''] widths_90" "''90%''"]
  by (simp add: hourly_2 forecast_icu_load_def)

section \<open>The fallback of the same-hour-yesterday feature\<close>

lemma build_features_same_hour_yesterday:
  assumes "3 \<le> length w" and "''same_hour_yesterday'' \<in> set (feature_cols md)"
  shows "\<exists>f. build_features w md = Inr f \<and>
     same_hour_yesterday f =
       Some (if 24 \<le> length w then real_of_int (map snd w ! (length w - 24)) else mean (map snd w))"
proof -
  from assms have ne: "w \<noteq> []" by auto
  show ?thesis
    using assms ne
    by (simp add: build_features_def iloc_m1 iloc_m2 iloc_m3 Let_def
        same_hour_yesterday_value_Inr)
qed

text \<open>
  Claim C7. For a frame of at least 3 and fewer than 24 rows and a model dictionary whose
  feature list names \<^verbatim>\<open>same_hour_yesterday\<close>, the feature dictionary is built, and its
  \<^verbatim>\<open>same_hour_yesterday\<close> entry, which is also the value of that column of the one-row
  frame, is the sum of all the counts divided by their number. For the counts
  2, 4, 6, 8, 10 it is 6.
\<close>

theorem same_hour_yesterday_fallback:
  assumes "3 \<le> length w" and "length w < 24"
    and "''same_hour_yesterday'' \<in> set (feature_cols md)"
  shows "\<exists>f. build_features w md = Inr f
           \<and> same_hour_yesterday f = Some (real_of_int (sum_list (map snd w)) / real (length w))
           \<and> feature_value f ''same_hour_yesterday'' = same_hour_yesterday f
           \<and> (map snd w = [2, 4, 6, 8, 10] \<longrightarrow> same_hour_yesterday f = Some 6)"
proof -
  from build_features_same_hour_yesterday [OF assms(1) assms(3)] assms(2)
  obtain f where f: "build_features w md = Inr f"
    and v: "same_hour_yesterday f = Some (mean (map snd w))" by auto
  have v': "same_hour_yesterday f = Some (real_of_int (sum_list (map snd w)) / real (length w))"
    using v by (simp add: mean_def)
  have five: "real_of_int (sum_list (map snd w)) / real (length w) = 6"
    if a: "map snd w = [2, 4, 6, 8, 10]"
  proof -
    have "length (map snd w) = 5" by (simp add: a)
    then have "length w = 5" by simp
    with a show ?thesis by simp
  qed
  have fv: "feature_value f ''same_hour_yesterday'' = same_hour_yesterday f"
    by (simp add: feature_value_def)
  show ?thesis
  proof (intro exI [of _ f] conjI impI)
    show "build_features w md = Inr f" by (rule f)
    show "same_hour_yesterday f = Some (real_of_int (sum_list (map snd w)) / real (length w))"
      by (rule v')
    show "feature_value f ''same_hour_yesterday'' = same_hour_yesterday f" by (rule fv)
    show "same_hour_yesterday f = Some 6" if "map snd w = [2, 4, 6, 8, 10]"
      using v' five [OF that] by simp
  qed
qed

theorem same_hour_yesterday_fallback_witness:
  "3 \<le> length (hourly monday_10h [2, 4, 6, 8, 10])
   \<and> length (hourly monday_10h [2, 4, 6, 8, 10]) < 24
   \<and> ''same_hour_yesterday'' \<in> set (feature_cols (artifact (\<lambda>x. 0) [''lag_1'', ''same_hour_yesterday''] Map.empty))
   \<and> (\<exists>f. build_features (hourly monday_10h [2, 4, 6, 8, 10])
             (artifact (\<lambda>x. 0) [''lag_1'', ''same_hour_yesterday''] Map.empty) = Inr f
          \<and> same_hour_yesterday f = Some 6)"
  using same_hour_yesterday_fallback
    [of "hourly monday_10h [2, 4, 6, 8, 10]" "artifact (\<lambda>x. 0) [''lag_1'', ''same_hour_yesterday''] Map.empty"]
  by (auto simp add: hourly_5 artifact_def)

section \<open>The caller's frame\<close>

lemma forecast_loop_on_frame:
  "working_data < length s \<Longrightarrow>
   \<exists>ext. snd (forecast_loop_on hs s working_data md conf acc) = s @ ext
       \<and> fst (forecast_loop_on hs s working_data md conf acc)
            = forecast_loop hs (s ! working_data) md conf acc"
proof (induction hs arbitrary: s working_data acc)
  case Nil
  then show ?case by simp
next
  case (Cons h hs)
  show ?case
  proof (cases "predict_next_hour_enhanced (s ! working_data) md conf")
    case (Inl e)
    then show ?thesis by (simp add: predict_next_hour_enhanced_on_def)
  next
    case (Inr pred)
    let ?row = "[(timestamp pred, predicted_arrivals pred)]"
    let ?cat = "s ! working_data @ ?row"
    let ?s3 = "s @ [?row] @ [?cat]"
    show ?thesis
    proof (cases "length ?cat > 50")
      case True
      let ?s4 = "?s3 @ [tail_rows 50 ?cat]"
      have step: "forecast_loop_on (h # hs) s working_data md conf acc
          = forecast_loop_on hs ?s4 (length s + 2) md conf (acc @ [pred])"
        using Inr True Cons.prems
        by (simp add: predict_next_hour_enhanced_on_def new_frame_def nth_append Let_def)
      have "length s + 2 < length ?s4" by simp
      from Cons.IH [OF this, of "acc @ [pred]"]
      obtain ext where e: "snd (forecast_loop_on hs ?s4 (length s + 2) md conf (acc @ [pred])) = ?s4 @ ext"
        and r: "fst (forecast_loop_on hs ?s4 (length s + 2) md conf (acc @ [pred]))
            = forecast_loop hs (?s4 ! (length s + 2)) md conf (acc @ [pred])" by blast
      have w: "?s4 ! (length s + 2) = extend_window (s ! working_data) pred"
        using True by (simp add: nth_append extend_window_def Let_def)
      have "snd (forecast_loop_on (h # hs) s working_data md conf acc)
          = s @ ([?row] @ [?cat] @ [tail_rows 50 ?cat] @ ext)"
        using step e by simp
      moreover have "fst (forecast_loop_on (h # hs) s working_data md conf acc)
          = forecast_loop (h # hs) (s ! working_data) md conf acc"
        using step r w Inr by simp
      ultimately show ?thesis by blast
    next
      case False
      have step: "forecast_loop_on (h # hs) s working_data md conf acc
          = forecast_loop_on hs ?s3 (length s + 1) md conf (acc @ [pred])"
        using Inr False Cons.prems
        by (simp add: predict_next_hour_enhanced_on_def new_frame_def nth_append Let_def)
      have "length s + 1 < length ?s3" by simp
      from Cons.IH [OF this, of "acc @ [pred]"]
      obtain ext where e: "snd (forecast_loop_on hs ?s3 (length s + 1) md conf (acc @ [pred])) = ?s3 @ ext"
        and r: "fst (forecast_loop_on hs ?s3 (length s + 1) md conf (acc @ [pred]))
            = forecast_loop hs (?s3 ! (length s + 1)) md conf (acc @ [pred])" by blast
      have w: "?s3 ! (length s + 1) = extend_window (s ! working_data) pred"
        using False by (simp add: nth_append extend_window_def Let_def)
      have "snd (forecast_loop_on (h # hs) s working_data md conf acc)
          = s @ ([?row] @ [?cat] @ ext)"
        using step e by simp
      moreover have "fst (forecast_loop_on (h # hs) s working_data md conf acc)
          = forecast_loop (h # hs) (s ! working_data) md conf acc"
        using step r w Inr by simp
      ultimately show ?thesis by blast
    qed
  qed
qed

lemma predict_next_6_hours_on_frame:
  assumes "recent_data < length s"
  shows "\<exists>ext. snd (predict_next_6_hours_on conv s recent_data md conf) = s @ ext
      \<and> fst (predict_next_6_hours_on conv s recent_data md conf)
           = predict_next_6_hours (map (\<lambda>(t, c). (conv t, c)) (s ! recent_data)) md conf"
proof -
  let ?copy = "map (\<lambda>(t, c). (conv t, c)) (s ! recent_data)"
  let ?s3 = "s @ [?copy] @ [sort_values ?copy]"
  have unf: "predict_next_6_hours_on conv s recent_data md conf
     = (case iloc (map fst (sort_values ?copy)) (- 1) of
           Inl e \<Rightarrow> (Inl e, ?s3)
         | Inr _ \<Rightarrow> forecast_loop_on [1..<7] ?s3 (length s + 1) md conf [])"
    using assms
    by (simp add: predict_next_6_hours_on_def new_frame_def Let_def nth_append
        cong del: sum.case_cong_weak)
  show ?thesis
  proof (cases "iloc (map fst (sort_values ?copy)) (- 1)")
    case (Inl e)
    then show ?thesis
      by (simp add: unf predict_next_6_hours_def Let_def)
  next
    case (Inr t)
    have "length s + 1 < length ?s3" by simp
    from forecast_loop_on_frame [OF this, of "[1..<7]" md conf "[]"]
    obtain ext where e: "snd (forecast_loop_on [1..<7] ?s3 (length s + 1) md conf []) = ?s3 @ ext"
      and r: "fst (forecast_loop_on [1..<7] ?s3 (length s + 1) md conf [])
           = forecast_loop [1..<7] (?s3 ! (length s + 1)) md conf []" by blast
    have w: "?s3 ! (length s + 1) = sort_values ?copy" by (simp add: nth_append)
    have "snd (predict_next_6_hours_on conv s recent_data md conf) = s @ ([?copy] @ [sort_values ?copy] @ ext)"
      using Inr e by (simp add: unf)
    moreover have "fst (predict_next_6_hours_on conv s recent_data md conf)
           = predict_next_6_hours ?copy md conf"
      using Inr r w by (simp add: unf predict_next_6_hours_def Let_def)
    ultimately show ?thesis by blast
  qed
qed

text \<open>
  Claim C8. Neither function writes the frame it is given. The single step leaves the
  store as it is. After the six-step loop every frame object that existed before the call,
  the caller's among them, holds the rows it held before: the copy of line 161, the sorted
  frame of line 163 and the frames of lines 187 and 191 are new objects, and the column
  assignment of line 162 writes the copy, whatever the conversion does. On the store the
  two functions return what they return on the rows of the caller's frame.
\<close>

theorem input_window_unchanged:
  assumes "recent_data < length s"
  shows "snd (predict_next_hour_enhanced_on s recent_data md conf) = s
       \<and> fst (predict_next_hour_enhanced_on s recent_data md conf)
            = predict_next_hour_enhanced (s ! recent_data) md conf
       \<and> take (length s) (snd (predict_next_6_hours_on conv s recent_data md conf)) = s
       \<and> snd (predict_next_6_hours_on conv s recent_data md conf) ! recent_data = s ! recent_data
       \<and> fst (predict_next_6_hours_on (\<lambda>t. t) s recent_data md conf)
            = predict_next_6_hours (s ! recent_data) md conf"
proof -
  from predict_next_6_hours_on_frame [OF assms, of conv md conf]
  obtain ext where e: "snd (predict_next_6_hours_on conv s recent_data md conf) = s @ ext" by blast
  from predict_next_6_hours_on_frame [OF assms, of "\<lambda>t. t" md conf]
  have r: "fst (predict_next_6_hours_on (\<lambda>t. t) s recent_data md conf)
            = predict_next_6_hours (s ! recent_data) md conf" by auto
  have "take (length s) (snd (predict_next_6_hours_on conv s recent_data md conf)) = s"
    by (simp add: e)
  moreover have "snd (predict_next_6_hours_on conv s recent_data md conf) ! recent_data = s ! recent_data"
    using assms by (simp add: e nth_append)
  ultimately show ?thesis using r by (simp add: predict_next_hour_enhanced_on_def)
qed

theorem input_window_unchanged_witness:
  "(0::nat) < length [hourly monday_10h [5, 7, 6]]
   \<and> snd (predict_next_6_hours_on ((+) one_hour) [hourly monday_10h [5, 7, 6]] 0
          (artifact first_column [''lag_1''] widths_90) ''90%'') ! 0
       = hourly monday_10h [5, 7, 6]
   \<and> take 1 (snd (predict_next_6_hours_on ((+) one_hour) [hourly monday_10h [5, 7, 6]] 0
          (artifact first_column [''lag_1''] widths_90) ''90%''))
       = [hourly monday_10h [5, 7, 6]]
   \<and> snd (predict_next_hour_enhanced_on [hourly monday_10h [5, 7, 6]] 0
          (artifact first_column [''lag_1''] widths_90) ''90%'')
       = [hourly monday_10h [5, 7, 6]]"
  using input_window_unchanged [of 0 "[hourly monday_10h [5, 7, 6]]"
      "artifact first_column [''lag_1''] widths_90" "''90%''" "(+) one_hour"]
  by simp

section \<open>The order of the input rows\<close>

lemma filter_same_key:
  "distinct (map f xs) \<Longrightarrow> k \<in> set xs \<Longrightarrow> filter (\<lambda>x. f k = f x) xs = [k]"
proof (induction xs)
  case Nil
  then show ?case by simp
next
  case (Cons a xs)
  show ?case
  proof (cases "k = a")
    case True
    have "filter (\<lambda>x. f a = f x) xs = []"
      using Cons.prems(1) by (auto simp add: filter_empty_conv)
    with True show ?thesis by simp
  next
    case False
    with Cons.prems have k: "k \<in> set xs" and d: "distinct (map f xs)" by auto
    have "f a \<notin> f ` set xs" using Cons.prems(1) by simp
    with k have "f k \<noteq> f a" by (metis imageI)
    with Cons.IH [OF d k] show ?thesis by simp
  qed
qed

lemma sort_key_permuted:
  assumes "distinct (map f xs)" and "mset ys = mset xs"
  shows "sort_key f ys = sort_key f xs"
proof (rule properties_for_sort_key)
  show "mset (sort_key f xs) = mset ys" using assms(2) by simp
  show "sorted (map f (sort_key f xs))" by simp
  fix k assume "k \<in> set (sort_key f xs)"
  then have kx: "k \<in> set xs" by simp
  then have ky: "k \<in> set ys" using assms(2) by (metis set_mset_mset)
  have dy: "distinct (map f ys)"
  proof -
    have "mset (map f ys) = mset (map f xs)" using assms(2) by simp
    then show ?thesis using assms(1) by (metis mset_eq_imp_distinct_iff)
  qed
  have ds: "distinct (map f (sort_key f xs))"
  proof -
    have "mset (map f (sort_key f xs)) = mset (map f xs)" by simp
    then show ?thesis using assms(1) by (metis mset_eq_imp_distinct_iff)
  qed
  have "filter (\<lambda>x. f k = f x) (sort_key f xs) = [k]"
    by (rule filter_same_key [OF ds]) (simp add: kx)
  moreover have "filter (\<lambda>x. f k = f x) ys = [k]"
    by (rule filter_same_key [OF dy ky])
  ultimately show "filter (\<lambda>x. f k = f x) (sort_key f xs) = filter (\<lambda>x. f k = f x) ys"
    by simp
qed

lemma predict_next_6_hours_sort_values:
  "predict_next_6_hours w md conf =
     (case iloc (map fst (sort_values w)) (- 1) of
        Inl e \<Rightarrow> Inl e
      | Inr _ \<Rightarrow> forecast_loop [1..<7] (sort_values w) md conf [])"
  by (simp add: predict_next_6_hours_def Let_def)

text \<open>
  Claim C9, as amended. When the timestamps of the frame are pairwise distinct, the
  six-step loop returns the same result, points or exception, for every reordering of the
  rows, in particular for the frame sorted by timestamp: the loop works on the sorted
  copy, and rows with distinct timestamps have one sorted order only.
\<close>

theorem forecast_permutation_invariant:
  assumes "distinct (map fst w)" and "mset w' = mset w"
  shows "predict_next_6_hours w' md conf = predict_next_6_hours w md conf
       \<and> predict_next_6_hours w md conf = predict_next_6_hours (sort_key fst w) md conf
       \<and> sorted (map fst (sort_key fst w)) \<and> mset (sort_key fst w) = mset w"
proof -
  have e1: "sort_values w' = sort_values w"
    unfolding sort_values_def by (rule sort_key_permuted [OF assms])
  have a: "predict_next_6_hours w' md conf = predict_next_6_hours w md conf"
    unfolding predict_next_6_hours_sort_values e1 by (rule refl)
  have e2: "sort_values (sort_key fst w) = sort_values w"
    unfolding sort_values_def by (rule sort_key_permuted [OF assms(1)]) simp
  have b: "predict_next_6_hours w md conf = predict_next_6_hours (sort_key fst w) md conf"
    unfolding predict_next_6_hours_sort_values e2 by (rule refl)
  from a b show ?thesis by simp
qed

theorem forecast_permutation_invariant_witness:
  "distinct (map fst (hourly monday_10h [5, 7, 6]))
   \<and> mset (rev (hourly monday_10h [5, 7, 6])) = mset (hourly monday_10h [5, 7, 6])
   \<and> predict_next_6_hours (rev (hourly monday_10h [5, 7, 6]))
        (artifact first_column [''lag_1''] widths_90) ''90%''
      = predict_next_6_hours (hourly monday_10h [5, 7, 6])
        (artifact first_column [''lag_1''] widths_90) ''90%''
   \<and> map_sum id (map predicted_arrivals)
        (predict_next_6_hours (rev (hourly monday_10h [5, 7, 6]))
           (artifact first_column [''lag_1''] widths_90) ''90%'')
      = Inr [6, 6, 6, 6, 6, 6]"
proof -
  let ?w = "hourly monday_10h [5, 7, 6]"
  let ?md = "artifact first_column [''lag_1''] widths_90"
  have d: "distinct (map fst ?w)" by (simp add: hourly_3 one_hour_def)
  have m: "mset (rev ?w) = mset ?w" by simp
  have e: "map_sum id (map predicted_arrivals) (predict_next_6_hours ?w ?md ''90%'') = Inr [6, 6, 6, 6, 6, 6]"
    unfolding predict_next_6_hours_def upt_1_7
    by (simp add: hourly_3 eval_step widths_90_def first_column_def sort_values_def)
  from forecast_permutation_invariant [OF d m, of ?md "''90%''"] d m e show ?thesis by simp
qed

text \<open>
  The claim as stated, for every frame of at least 3 rows, fails for rows that share a
  timestamp. Sorting by timestamp does not order such rows among themselves; their order
  after the sort comes from their order in the input (here, unchanged: three equal keys),
  so the frame and its reversal give different last counts to a regressor that answers
  the first lag.
\<close>

theorem forecast_permutation_invariant_counterexample:
  "3 \<le> length tied_window
   \<and> mset (rev tied_window) = mset tied_window
   \<and> map_sum id (map predicted_arrivals)
        (predict_next_6_hours tied_window (artifact first_column [''lag_1''] widths_90) ''90%'')
       = Inr [3, 3, 3, 3, 3, 3]
   \<and> map_sum id (map predicted_arrivals)
        (predict_next_6_hours (rev tied_window) (artifact first_column [''lag_1''] widths_90) ''90%'')
       = Inr [1, 1, 1, 1, 1, 1]
   \<and> predict_next_6_hours (rev tied_window) (artifact first_column [''lag_1''] widths_90) ''90%''
       \<noteq> predict_next_6_hours tied_window (artifact first_column [''lag_1''] widths_90) ''90%''"
proof -
  let ?md = "artifact first_column [''lag_1''] widths_90"
  have a: "map_sum id (map predicted_arrivals) (predict_next_6_hours tied_window ?md ''90%'')
       = Inr [3, 3, 3, 3, 3, 3]"
    unfolding predict_next_6_hours_def upt_1_7
    by (simp add: tied_window_def eval_step widths_90_def first_column_def sort_values_def)
  have b: "map_sum id (map predicted_arrivals) (predict_next_6_hours (rev tied_window) ?md ''90%'')
       = Inr [1, 1, 1, 1, 1, 1]"
    unfolding predict_next_6_hours_def upt_1_7
    by (simp add: tied_window_def eval_step widths_90_def first_column_def sort_values_def)
  have c: "predict_next_6_hours (rev tied_window) ?md ''90%'' \<noteq> predict_next_6_hours tied_window ?md ''90%''"
  proof
    assume "predict_next_6_hours (rev tied_window) ?md ''90%'' = predict_next_6_hours tied_window ?md ''90%''"
    with a b show False by simp
  qed
  from a b c show ?thesis by (simp add: tied_window_def)
qed

section \<open>The same-hour-yesterday feature on a long frame\<close>

lemma hourly_nth_back:
  assumes hourly: "\<forall>i. Suc i < length w \<longrightarrow> fst (w ! Suc i) = fst (w ! i) + one_hour"
  shows "k < length w \<Longrightarrow> fst (w ! (length w - 1 - k)) = fst (w ! (length w - 1)) - int k * one_hour"
proof (induction k)
  case 0
  then show ?case by simp
next
  case (Suc k)
  then have k: "k < length w" by simp
  from Suc.prems have s: "Suc (length w - 1 - Suc k) = length w - 1 - k" by simp
  have "Suc (length w - 1 - Suc k) < length w" using Suc.prems by simp
  with hourly have "fst (w ! Suc (length w - 1 - Suc k)) = fst (w ! (length w - 1 - Suc k)) + one_hour"
    by blast
  with s Suc.IH [OF k] show ?case by (simp add: algebra_simps)
qed

lemma gapped_window_rows:
  "length gapped_window = 25"
  "snd (gapped_window ! Suc 0) = 2"
  "fst (last gapped_window) = monday_10h + 25 * one_hour"
  "(monday_10h + 2 * one_hour, 3) \<in> set gapped_window"
  "sorted (map fst gapped_window)"
  by (simp_all add: gapped_window_def day_window_def hourly_def upt_rec one_hour_def)

lemma hourly_consecutive:
  "Suc i < length (hourly t cs) \<Longrightarrow> fst (hourly t cs ! Suc i) = fst (hourly t cs ! i) + one_hour"
  by (simp add: hourly_def algebra_simps)

lemma day_window_rows:
  "length day_window = 24"
  "snd (day_window ! 0) = 1"
  "fst (day_window ! 0) = monday_10h"
  "fst (last day_window) = monday_10h + 23 * one_hour"
  by (simp_all add: day_window_def hourly_def upt_rec)

lemma offgrid_window_rows:
  "length offgrid_window = 25"
  "offgrid_window ! Suc 0 = (monday_10h, 1)"
  "fst (offgrid_window ! 0) = monday_10h - 1800000000000"
  "fst (last offgrid_window) = monday_10h + 23 * one_hour"
  by (simp_all add: offgrid_window_def day_window_def hourly_def upt_rec)

text \<open>
  Claim C10, as amended. For a frame of at least 24 rows and a model dictionary whose
  feature list names \<^verbatim>\<open>same_hour_yesterday\<close>, the entry is the count of the row at index
  \<open>len - 24\<close>. It depends on the counts only: a frame with the same counts and any
  timestamps gives the same entry. Whenever each row is one hour after the row before it,
  the row at that index is the one stamped 24 hours before the target hour, so the entry
  is the count observed then. Without that spacing it may or may not be: in the frame
  \<open>gapped_window\<close>, which misses one hour, the entry is the count 2 although the row
  stamped 24 hours before the target holds the count 3.
\<close>

theorem same_hour_yesterday_positional:
  assumes "24 \<le> length w" and "''same_hour_yesterday'' \<in> set (feature_cols md)"
  shows "\<exists>f. build_features w md = Inr f
       \<and> same_hour_yesterday f = Some (real_of_int (snd (w ! (length w - 24))))
       \<and> feature_value f ''same_hour_yesterday'' = same_hour_yesterday f
       \<and> (\<forall>w'. map snd w' = map snd w \<longrightarrow>
            (\<exists>f'. build_features w' md = Inr f' \<and> same_hour_yesterday f' = same_hour_yesterday f))
       \<and> ((\<forall>i. Suc i < length w \<longrightarrow> fst (w ! Suc i) = fst (w ! i) + one_hour) \<longrightarrow>
            fst (w ! (length w - 24)) = fst (last w) + one_hour - 24 * one_hour)
       \<and> (\<exists>g. build_features gapped_window md = Inr g
            \<and> same_hour_yesterday g = Some 2
            \<and> (fst (last gapped_window) + one_hour - 24 * one_hour, 3) \<in> set gapped_window)"
proof -
  from assms(1) have len3: "3 \<le> length w" and ne: "w \<noteq> []" by auto
  from build_features_same_hour_yesterday [OF len3 assms(2)] assms(1)
  obtain f where f: "build_features w md = Inr f"
    and v: "same_hour_yesterday f = Some (real_of_int (snd (w ! (length w - 24))))"
    by (auto simp add: nth_map)
  have fv: "feature_value f ''same_hour_yesterday'' = same_hour_yesterday f"
    by (simp add: feature_value_simps)
  have pos: "\<exists>f'. build_features w' md = Inr f' \<and> same_hour_yesterday f' = same_hour_yesterday f"
    if eq: "map snd w' = map snd w" for w'
  proof -
    from eq have l: "length w' = length w" by (metis length_map)
    with assms(1) have "3 \<le> length w'" by simp
    from build_features_same_hour_yesterday [OF this assms(2)] l assms(1)
    obtain f' where "build_features w' md = Inr f'"
      and "same_hour_yesterday f' = Some (real_of_int (map snd w' ! (length w - 24)))" by auto
    moreover have "same_hour_yesterday f = Some (real_of_int (map snd w ! (length w - 24)))"
      using v assms(1) by (simp add: nth_map)
    ultimately show ?thesis using eq by auto
  qed
  have hr: "fst (w ! (length w - 24)) = fst (last w) + one_hour - 24 * one_hour"
    if h: "\<forall>i. Suc i < length w \<longrightarrow> fst (w ! Suc i) = fst (w ! i) + one_hour"
  proof -
    have "fst (w ! (length w - 1 - 23)) = fst (w ! (length w - 1)) - int 23 * one_hour"
      by (rule hourly_nth_back [OF h]) (use assms(1) in simp)
    moreover have "length w - 1 - 23 = length w - 24" by simp
    moreover have "w ! (length w - 1) = last w" using ne by (simp add: last_conv_nth)
    ultimately show ?thesis by (simp add: algebra_simps)
  qed
  have gap: "\<exists>g. build_features gapped_window md = Inr g
            \<and> same_hour_yesterday g = Some 2
            \<and> (fst (last gapped_window) + one_hour - 24 * one_hour, 3) \<in> set gapped_window"
  proof -
    have "3 \<le> length gapped_window" by (simp add: gapped_window_rows)
    from build_features_same_hour_yesterday [OF this assms(2)]
    obtain g where "build_features gapped_window md = Inr g"
      and "same_hour_yesterday g = Some 2"
      by (auto simp add: gapped_window_rows)
    moreover have "(fst (last gapped_window) + one_hour - 24 * one_hour, 3) \<in> set gapped_window"
    proof -
      have "fst (last gapped_window) + one_hour - 24 * one_hour = monday_10h + 2 * one_hour"
        by (simp add: gapped_window_rows(3))
      then show ?thesis using gapped_window_rows(4) by (simp only:)
    qed
    ultimately show ?thesis by blast
  qed
  from f v fv pos hr gap show ?thesis by blast
qed

theorem same_hour_yesterday_positional_witness:
  "24 \<le> length day_window
   \<and> ''same_hour_yesterday'' \<in> set (feature_cols (artifact first_column [''lag_1'', ''same_hour_yesterday''] widths_90))
   \<and> (\<exists>f. build_features day_window (artifact first_column [''lag_1'', ''same_hour_yesterday''] widths_90) = Inr f
          \<and> same_hour_yesterday f = Some 1)
   \<and> fst (day_window ! (length day_window - 24)) = fst (last day_window) + one_hour - 24 * one_hour
   \<and> fst (last day_window) + one_hour - 24 * one_hour = monday_10h"
proof -
  let ?md = "artifact first_column [''lag_1'', ''same_hour_yesterday''] widths_90"
  have a: "24 \<le> length day_window" by (simp add: day_window_rows)
  have b: "''same_hour_yesterday'' \<in> set (feature_cols ?md)" by (simp add: artifact_simps)
  have h: "\<forall>i. Suc i < length day_window \<longrightarrow> fst (day_window ! Suc i) = fst (day_window ! i) + one_hour"
    unfolding day_window_def using hourly_consecutive by blast
  from same_hour_yesterday_positional [OF a b]
  obtain f where "build_features day_window ?md = Inr f"
    and "same_hour_yesterday f = Some (real_of_int (snd (day_window ! (length day_window - 24))))"
    and "(\<forall>i. Suc i < length day_window \<longrightarrow> fst (day_window ! Suc i) = fst (day_window ! i) + one_hour) \<longrightarrow>
            fst (day_window ! (length day_window - 24)) = fst (last day_window) + one_hour - 24 * one_hour"
    by blast
  with h a b show ?thesis by (auto simp add: day_window_rows)
qed

text \<open>
  The claim as stated, that the entry is the count observed 24 hours before the target only
  when the rows are consecutive hourly observations, fails: in the frame \<open>offgrid_window\<close>
  the first row is half an hour before the second, and the row at index \<open>len - 24\<close> is
  still the one stamped 24 hours before the target.
\<close>

theorem same_hour_yesterday_positional_counterexample:
  "24 \<le> length offgrid_window
   \<and> ''same_hour_yesterday'' \<in> set (feature_cols (artifact first_column [''lag_1'', ''same_hour_yesterday''] widths_90))
   \<and> map_sum id same_hour_yesterday
        (build_features offgrid_window (artifact first_column [''lag_1'', ''same_hour_yesterday''] widths_90))
       = Inr (Some 1)
   \<and> offgrid_window ! (length offgrid_window - 24)
       = (fst (last offgrid_window) + one_hour - 24 * one_hour, 1)
   \<and> fst (offgrid_window ! Suc 0) \<noteq> fst (offgrid_window ! 0) + one_hour"
proof -
  let ?md = "artifact first_column [''lag_1'', ''same_hour_yesterday''] widths_90"
  have a: "24 \<le> length offgrid_window" "3 \<le> length offgrid_window"
    by (simp_all add: offgrid_window_rows)
  have b: "''same_hour_yesterday'' \<in> set (feature_cols ?md)" by (simp add: artifact_simps)
  from build_features_same_hour_yesterday [OF a(2) b]
  obtain f where "build_features offgrid_window ?md = Inr f"
    and "same_hour_yesterday f = Some 1"
    by (auto simp add: offgrid_window_rows)
  then have c: "map_sum id same_hour_yesterday (build_features offgrid_window ?md) = Inr (Some 1)"
    by simp
  have d: "offgrid_window ! (length offgrid_window - 24)
       = (fst (last offgrid_window) + one_hour - 24 * one_hour, 1)"
    by (simp add: offgrid_window_rows)
  have e: "fst (offgrid_window ! Suc 0) \<noteq> fst (offgrid_window ! 0) + one_hour"
    by (simp add: offgrid_window_rows one_hour_def)
  from a(1) b c d e show ?thesis by simp
qed

end
